theory Spec2Isabelle
  imports Complex_Main "HOL-Library.Multiset"
begin

text \<open>
  The repository is a set of tutorial notebooks for an LLM application framework. This
  theory embeds the code the notebooks define themselves: the hybrid fusion callback
  \<open>relative_score_fusion\<close>, the event handler \<open>GetTrustworthinessScore\<close>, the
  index-loading cell with its \<open>try\<close>/\<open>except\<close>, the coroutines
  \<open>get_agent_with_context_awareness\<close> and \<open>main\<close>, and \<open>magic_formula\<close>. The definitions come
  first, then the properties of the helpers, then the claims of the specification.
\<close>

section \<open>Python values and exceptions\<close>

text \<open>
  The notebooks are Python. An exception is a value of \<open>py_error\<close>, and a function that can
  raise returns \<open>py_error + 'a\<close> with \<open>Inl\<close> for the raised exception. \<open>SDKError\<close> stands
  for whatever an external SDK call raises (the notebooks never name these exceptions).

  Similarity scores are Python floats in the source. The fusion callback is modelled
  twice. The first model computes with exact rationals; it carries the statements that do
  not depend on how floats round or overflow (which nodes are returned, the formula of
  the fused score, when an exception is raised). The second model, further down, computes
  with floats that can be infinite or NaN; it carries the statements about the order of
  the returned similarities. Dividing a float by zero raises \<open>ZeroDivisionError\<close> in
  Python, which both models keep.
\<close>

datatype py_error =
    AssertionError
  | ValueError
  | ZeroDivisionError
  | KeyError string
  | SDKError string

definition py_div :: "rat \<Rightarrow> rat \<Rightarrow> py_error + rat" where
  "py_div a b = (if b = 0 then Inl ZeroDivisionError else Inr (a / b))"

text \<open>\<open>max(xs)\<close> and \<open>min(xs)\<close> raise \<open>ValueError\<close> on an empty list.\<close>

fun py_max :: "rat list \<Rightarrow> py_error + rat" where
  "py_max [] = Inl ValueError"
| "py_max (x # xs) = Inr (foldl max x xs)"

fun py_min :: "rat list \<Rightarrow> py_error + rat" where
  "py_min [] = Inl ValueError"
| "py_min (x # xs) = Inr (foldl min x xs)"

text \<open>
  \<open>xs.sort(key=lambda x: x[0], reverse=True)\<close>: a stable sort into descending order of the
  first component (Python keeps the original order of elements with equal keys also when
  \<open>reverse=True\<close>). \<open>sort_key\<close> is a stable insertion sort into ascending key order, so
  the key is negated.
\<close>

definition sort_reverse :: "(rat \<times> 'a) list \<Rightarrow> (rat \<times> 'a) list" where
  "sort_reverse xs = sort_key (\<lambda>x. - fst x) xs"

text \<open>\<open>xs[:k]\<close> for a Python int \<open>k\<close>: a negative \<open>k\<close> counts from the end.\<close>

definition py_slice_to :: "'a list \<Rightarrow> int \<Rightarrow> 'a list" where
  "py_slice_to xs k =
     (if k < 0 then take (nat (int (length xs) + k)) xs else take (nat k) xs)"

subsection \<open>Dictionaries\<close>

text \<open>
  A Python dict keeps its keys in insertion order, and the fusion function iterates over
  one, so a dict is an association list with distinct keys in insertion order.
  \<open>dict_set k v d\<close> is \<open>d[k] = v\<close>: an existing key keeps its position and gets the new
  value, a new key goes to the end.
\<close>

type_synonym ('k, 'v) dict = "('k \<times> 'v) list"

fun dict_set :: "'k \<Rightarrow> 'v \<Rightarrow> ('k, 'v) dict \<Rightarrow> ('k, 'v) dict" where
  "dict_set k v [] = [(k, v)]"
| "dict_set k v (p # d) = (if fst p = k then (fst p, v) # d else p # dict_set k v d)"

definition dict_contains :: "('k, 'v) dict \<Rightarrow> 'k \<Rightarrow> bool" where
  "dict_contains d k = (k \<in> set (map fst d))"

text \<open>\<open>d.get(k, default)\<close>\<close>

definition dict_get :: "('k, 'v) dict \<Rightarrow> 'k \<Rightarrow> 'v \<Rightarrow> 'v" where
  "dict_get d k dflt = (case map_of d k of None \<Rightarrow> dflt | Some v \<Rightarrow> v)"

text \<open>\<open>{key(x): value(x) for x in xs}\<close>\<close>

definition dict_comprehension :: "('a \<Rightarrow> 'k) \<Rightarrow> ('a \<Rightarrow> 'v) \<Rightarrow> 'a list \<Rightarrow> ('k, 'v) dict" where
  "dict_comprehension key val xs = foldl (\<lambda>d x. dict_set (key x) (val x) d) [] xs"

section \<open>The hybrid fusion callback (qdrant\_hybrid.ipynb)\<close>

text \<open>
  A node is an opaque framework object; the function reads only its \<open>node_id\<close>. The second
  field stands for the rest of the object, so that two nodes with one id can differ.
\<close>

record node =
  node_id :: string
  node_text :: string

record VectorStoreQueryResult =
  nodes :: "node list option"
  similarities :: "rat list option"
  ids :: "string list option"

text \<open>
  \<open>all_nodes_dict = {x.node_id: x for x in dense_result.nodes}\<close>, then every sparse node
  whose id is not yet a key is added.
\<close>

definition all_nodes_dict :: "node list \<Rightarrow> node list \<Rightarrow> (string, node) dict" where
  "all_nodes_dict dense_nodes sparse_nodes =
     foldl (\<lambda>d n. if \<not> dict_contains d (node_id n) then dict_set (node_id n) n d else d)
       (dict_comprehension node_id (\<lambda>x. x) dense_nodes) sparse_nodes"

text \<open>
  \<open>[(x - mn) / (mx - mn) for x in sims]\<close>: the comprehension raises at the first division
  by zero, and raises nothing on an empty list.
\<close>

fun scale_all :: "rat \<Rightarrow> rat \<Rightarrow> rat list \<Rightarrow> py_error + rat list" where
  "scale_all mn mx [] = Inr []"
| "scale_all mn mx (x # xs) =
     (case py_div (x - mn) (mx - mn) of
        Inl e \<Rightarrow> Inl e
      | Inr y \<Rightarrow> (case scale_all mn mx xs of Inl e \<Rightarrow> Inl e | Inr ys \<Rightarrow> Inr (y # ys)))"

text \<open>The normalisation of one side: \<open>max\<close>, then \<open>min\<close>, then the comprehension.\<close>

definition normalize :: "rat list \<Rightarrow> py_error + rat list" where
  "normalize sims =
     (case py_max sims of
        Inl e \<Rightarrow> Inl e
      | Inr mx \<Rightarrow>
          (case py_min sims of
             Inl e \<Rightarrow> Inl e
           | Inr mn \<Rightarrow> scale_all mn mx sims))"

text \<open>
  \<open>{tuples[i][1].node_id: x for i, x in enumerate(sims)}\<close>. The index is in range where the
  function is used, since \<open>sims\<close> is as long as \<open>tuples\<close>.
\<close>

definition per_node :: "(rat \<times> node) list \<Rightarrow> rat list \<Rightarrow> (string, rat) dict" where
  "per_node tuples sims =
     dict_comprehension (\<lambda>(i, x). node_id (snd (tuples ! i))) (\<lambda>(i, x). x) (enumerate 0 sims)"

text \<open>
  The loop \<open>for node_id in all_nodes_dict\<close>, which reads \<open>all_nodes_dict[node_id]\<close> for each
  key in insertion order: a traversal of the dict's items.
\<close>

definition fuse_scores ::
  "rat \<Rightarrow> (string, node) dict \<Rightarrow> (string, rat) dict \<Rightarrow> (string, rat) dict \<Rightarrow> (rat \<times> node) list" where
  "fuse_scores alpha all_nodes sparse_per_node dense_per_node =
     map (\<lambda>(nid, n).
            let sparse_sim = dict_get sparse_per_node nid 0;
                dense_sim = dict_get dense_per_node nid 0;
                fused_sim = alpha * (sparse_sim + dense_sim)
            in (fused_sim, n))
         all_nodes"

text \<open>
  The body after the four sanity checks. It returns the list \<open>fused_similarities\<close> as it
  is before the final sort and truncation, so that statements about every fused node can
  be made.
\<close>

definition fused_similarities ::
  "node list \<Rightarrow> rat list \<Rightarrow> node list \<Rightarrow> rat list \<Rightarrow> rat \<Rightarrow> py_error + (rat \<times> node) list" where
  "fused_similarities dense_nodes dense_sims sparse_nodes sparse_sims alpha =
     (let sparse_result_tuples = sort_reverse (zip sparse_sims sparse_nodes);
          dense_result_tuples = sort_reverse (zip dense_sims dense_nodes);
          all_nodes = all_nodes_dict dense_nodes sparse_nodes
      in case normalize (map fst sparse_result_tuples) of
           Inl e \<Rightarrow> Inl e
         | Inr sparse_similarities \<Rightarrow>
             (let sparse_per_node = per_node sparse_result_tuples sparse_similarities
              in case normalize (map fst dense_result_tuples) of
                   Inl e \<Rightarrow> Inl e
                 | Inr dense_similarities \<Rightarrow>
                     (let dense_per_node = per_node dense_result_tuples dense_similarities
                      in Inr (fuse_scores alpha all_nodes sparse_per_node dense_per_node))))"

definition relative_score_fusion ::
  "VectorStoreQueryResult \<Rightarrow> VectorStoreQueryResult \<Rightarrow> rat \<Rightarrow> int \<Rightarrow> py_error + VectorStoreQueryResult" where
  "relative_score_fusion dense_result sparse_result alpha top_k =
     (case nodes dense_result of
        None \<Rightarrow> Inl AssertionError
      | Some dense_nodes \<Rightarrow>
     (case similarities dense_result of
        None \<Rightarrow> Inl AssertionError
      | Some dense_sims \<Rightarrow>
     (case nodes sparse_result of
        None \<Rightarrow> Inl AssertionError
      | Some sparse_nodes \<Rightarrow>
     (case similarities sparse_result of
        None \<Rightarrow> Inl AssertionError
      | Some sparse_sims \<Rightarrow>
     (case fused_similarities dense_nodes dense_sims sparse_nodes sparse_sims alpha of
        Inl e \<Rightarrow> Inl e
      | Inr fused \<Rightarrow>
          (let fused = py_slice_to (sort_reverse fused) top_k
           in Inr \<lparr>nodes = Some (map snd fused),
                   similarities = Some (map fst fused),
                   ids = Some (map (\<lambda>x. node_id (snd x)) fused)\<rparr>))))))"

subsection \<open>Notions used to state the properties of the fusion callback\<close>

text \<open>A list of similarities "contains at least two distinct values".\<close>

definition two_values :: "rat list \<Rightarrow> bool" where
  "two_values xs = (\<exists>a \<in> set xs. \<exists>b \<in> set xs. a \<noteq> b)"

text \<open>
  The min-max-normalised similarity of a node id on one side, where \<open>pairs\<close> are the
  (similarity, node) pairs of that side: 0 when no pair carries the id. When several pairs
  carry the id, the smallest of their similarities counts (in the source the last pair in
  descending order overwrites the earlier ones in \<open>sparse_per_node\<close> and
  \<open>dense_per_node\<close>).
\<close>

definition contribution :: "(rat \<times> node) list \<Rightarrow> string \<Rightarrow> rat" where
  "contribution pairs nid =
     (let own = map fst (filter (\<lambda>p. node_id (snd p) = nid) pairs);
          every = map fst pairs
      in if own = [] then 0
         else (Min (set own) - Min (set every)) / (Max (set every) - Min (set every)))"

text \<open>
  The node that the merge of the two node lists keeps for a node id: the last dense node
  with the id (in \<open>{x.node_id: x for x in dense_result.nodes}\<close> a later node overwrites an
  earlier one), otherwise the first sparse node with it (a sparse node is added only while
  its id is missing).
\<close>

definition merged_node :: "node list \<Rightarrow> node list \<Rightarrow> string \<Rightarrow> node option" where
  "merged_node dense_nodes sparse_nodes nid =
     (case find (\<lambda>n. node_id n = nid) (rev dense_nodes) of
        Some n \<Rightarrow> Some n
      | None \<Rightarrow> find (\<lambda>n. node_id n = nid) sparse_nodes)"

section \<open>The fusion callback on Python floats\<close>

text \<open>
  The model above computes with exact rationals. That is what the statements about which
  nodes are returned and about the formula of the fused score need, since they hold in any
  arithmetic. What the callback returns when a float operation overflows is different: the
  difference of two finite floats can be infinite, and infinity divided by infinity is
  NaN, which no comparison orders. The order of the returned similarities is therefore
  stated on a second model of the same function, over Python floats.

  A float is a finite number, an infinity or NaN (the two zeros are one value: they
  compare equal and both raise as divisors). Comparisons are the ones of IEEE 754. The
  four arithmetic operations are parameters, so that what is proved holds for the
  operations of the machine, rounding included. \<open>list.sort\<close> with NaN among the keys is a
  parameter too: the order it leaves is an accident of the algorithm.
\<close>

datatype pyfloat = Fin rat | PInf | NInf | NaN

text \<open>\<open>x < y\<close> and \<open>x <= y\<close> on floats; every comparison with NaN is false.\<close>

fun fl_lt :: "pyfloat \<Rightarrow> pyfloat \<Rightarrow> bool" where
  "fl_lt (Fin a) (Fin b) = (a < b)"
| "fl_lt (Fin a) PInf = True"
| "fl_lt NInf (Fin b) = True"
| "fl_lt NInf PInf = True"
| "fl_lt _ _ = False"

definition fl_le :: "pyfloat \<Rightarrow> pyfloat \<Rightarrow> bool" where
  "fl_le x y = (fl_lt x y \<or> (x = y \<and> x \<noteq> NaN))"

record py_runtime =
  fl_add :: "pyfloat \<Rightarrow> pyfloat \<Rightarrow> pyfloat"
  fl_sub :: "pyfloat \<Rightarrow> pyfloat \<Rightarrow> pyfloat"
  fl_mul :: "pyfloat \<Rightarrow> pyfloat \<Rightarrow> pyfloat"
  fl_div :: "pyfloat \<Rightarrow> pyfloat \<Rightarrow> pyfloat"
  sort_nan_keys :: "(pyfloat \<times> node) list \<Rightarrow> (pyfloat \<times> node) list"

text \<open>\<open>a / b\<close> raises \<open>ZeroDivisionError\<close> when \<open>b\<close> is zero, and only then.\<close>

definition py_div_f :: "py_runtime \<Rightarrow> pyfloat \<Rightarrow> pyfloat \<Rightarrow> py_error + pyfloat" where
  "py_div_f rt a b = (if b = Fin 0 then Inl ZeroDivisionError else Inr (fl_div rt a b))"

text \<open>
  \<open>max(xs)\<close> keeps the first element and replaces it by a later one that compares greater;
  \<open>min(xs)\<close> likewise with less.
\<close>

fun py_max_f :: "pyfloat list \<Rightarrow> py_error + pyfloat" where
  "py_max_f [] = Inl ValueError"
| "py_max_f (x # xs) = Inr (foldl (\<lambda>m y. if fl_lt m y then y else m) x xs)"

fun py_min_f :: "pyfloat list \<Rightarrow> py_error + pyfloat" where
  "py_min_f [] = Inl ValueError"
| "py_min_f (x # xs) = Inr (foldl (\<lambda>m y. if fl_lt y m then y else m) x xs)"

fun scale_all_f :: "py_runtime \<Rightarrow> pyfloat \<Rightarrow> pyfloat \<Rightarrow> pyfloat list \<Rightarrow> py_error + pyfloat list" where
  "scale_all_f rt mn mx [] = Inr []"
| "scale_all_f rt mn mx (x # xs) =
     (case py_div_f rt (fl_sub rt x mn) (fl_sub rt mx mn) of
        Inl e \<Rightarrow> Inl e
      | Inr y \<Rightarrow> (case scale_all_f rt mn mx xs of Inl e \<Rightarrow> Inl e | Inr ys \<Rightarrow> Inr (y # ys)))"

definition normalize_f :: "py_runtime \<Rightarrow> pyfloat list \<Rightarrow> py_error + pyfloat list" where
  "normalize_f rt sims =
     (case py_max_f sims of
        Inl e \<Rightarrow> Inl e
      | Inr mx \<Rightarrow>
          (case py_min_f sims of
             Inl e \<Rightarrow> Inl e
           | Inr mn \<Rightarrow> scale_all_f rt mn mx sims))"

text \<open>
  \<open>xs.sort(key=lambda x: x[0], reverse=True)\<close>. Without NaN among the keys the result is
  the stable sort into descending order, here by insertion: an element goes before the
  first one that is not greater than it.
\<close>

fun insert_reverse :: "(pyfloat \<times> 'a) \<Rightarrow> (pyfloat \<times> 'a) list \<Rightarrow> (pyfloat \<times> 'a) list" where
  "insert_reverse x [] = [x]"
| "insert_reverse x (y # ys) =
     (if fl_lt (fst x) (fst y) then y # insert_reverse x ys else x # y # ys)"

definition sort_reverse_f :: "py_runtime \<Rightarrow> (pyfloat \<times> node) list \<Rightarrow> (pyfloat \<times> node) list" where
  "sort_reverse_f rt xs =
     (if \<forall>x \<in> set xs. fst x \<noteq> NaN then foldr insert_reverse xs [] else sort_nan_keys rt xs)"

definition per_node_f :: "(pyfloat \<times> node) list \<Rightarrow> pyfloat list \<Rightarrow> (string, pyfloat) dict" where
  "per_node_f tuples sims =
     dict_comprehension (\<lambda>(i, x). node_id (snd (tuples ! i))) (\<lambda>(i, x). x) (enumerate 0 sims)"

definition fuse_scores_f ::
  "py_runtime \<Rightarrow> pyfloat \<Rightarrow> (string, node) dict \<Rightarrow> (string, pyfloat) dict \<Rightarrow> (string, pyfloat) dict
     \<Rightarrow> (pyfloat \<times> node) list" where
  "fuse_scores_f rt alpha all_nodes sparse_per_node dense_per_node =
     map (\<lambda>(nid, n).
            let sparse_sim = dict_get sparse_per_node nid (Fin 0);
                dense_sim = dict_get dense_per_node nid (Fin 0);
                fused_sim = fl_mul rt alpha (fl_add rt sparse_sim dense_sim)
            in (fused_sim, n))
         all_nodes"

definition fused_similarities_f ::
  "py_runtime \<Rightarrow> node list \<Rightarrow> pyfloat list \<Rightarrow> node list \<Rightarrow> pyfloat list \<Rightarrow> pyfloat
     \<Rightarrow> py_error + (pyfloat \<times> node) list" where
  "fused_similarities_f rt dense_nodes dense_sims sparse_nodes sparse_sims alpha =
     (let sparse_result_tuples = sort_reverse_f rt (zip sparse_sims sparse_nodes);
          dense_result_tuples = sort_reverse_f rt (zip dense_sims dense_nodes);
          all_nodes = all_nodes_dict dense_nodes sparse_nodes
      in case normalize_f rt (map fst sparse_result_tuples) of
           Inl e \<Rightarrow> Inl e
         | Inr sparse_similarities \<Rightarrow>
             (let sparse_per_node = per_node_f sparse_result_tuples sparse_similarities
              in case normalize_f rt (map fst dense_result_tuples) of
                   Inl e \<Rightarrow> Inl e
                 | Inr dense_similarities \<Rightarrow>
                     (let dense_per_node = per_node_f dense_result_tuples dense_similarities
                      in Inr (fuse_scores_f rt alpha all_nodes sparse_per_node dense_per_node))))"

record VectorStoreQueryResult_f =
  nodes_f :: "node list option"
  similarities_f :: "pyfloat list option"
  ids_f :: "string list option"

definition relative_score_fusion_f ::
  "py_runtime \<Rightarrow> VectorStoreQueryResult_f \<Rightarrow> VectorStoreQueryResult_f \<Rightarrow> pyfloat \<Rightarrow> int
     \<Rightarrow> py_error + VectorStoreQueryResult_f" where
  "relative_score_fusion_f rt dense_result sparse_result alpha top_k =
     (case nodes_f dense_result of
        None \<Rightarrow> Inl AssertionError
      | Some dense_nodes \<Rightarrow>
     (case similarities_f dense_result of
        None \<Rightarrow> Inl AssertionError
      | Some dense_sims \<Rightarrow>
     (case nodes_f sparse_result of
        None \<Rightarrow> Inl AssertionError
      | Some sparse_nodes \<Rightarrow>
     (case similarities_f sparse_result of
        None \<Rightarrow> Inl AssertionError
      | Some sparse_sims \<Rightarrow>
     (case fused_similarities_f rt dense_nodes dense_sims sparse_nodes sparse_sims alpha of
        Inl e \<Rightarrow> Inl e
      | Inr fused \<Rightarrow>
          (let fused = py_slice_to (sort_reverse_f rt fused) top_k
           in Inr \<lparr>nodes_f = Some (map snd fused),
                   similarities_f = Some (map fst fused),
                   ids_f = Some (map (\<lambda>x. node_id (snd x)) fused)\<rparr>))))))"

text \<open>
  A list of float similarities "contains at least two distinct values", all of them
  numbers.
\<close>

definition two_values_f :: "pyfloat list \<Rightarrow> bool" where
  "two_values_f xs = (NaN \<notin> set xs \<and> (\<exists>a \<in> set xs. \<exists>b \<in> set xs. a \<noteq> b))"

subsection \<open>Double arithmetic without rounding\<close>

text \<open>
  A runtime to evaluate the callback on concrete floats: the arithmetic of IEEE doubles
  where the exact result is a double or overflows, that is, the exact result when it is
  below \<open>2 ^ 1024\<close> in absolute value and an infinity otherwise, with the usual rules for
  infinities and NaN. Results are not rounded, so it is used only on inputs whose results
  are doubles. The sort on NaN keys is given by the caller.
\<close>

definition overflow :: "rat \<Rightarrow> pyfloat" where
  "overflow r = (if 2 ^ 1024 \<le> r then PInf else if r \<le> - (2 ^ 1024) then NInf else Fin r)"

fun fl_sign :: "pyfloat \<Rightarrow> int" where
  "fl_sign (Fin a) = (if a < 0 then - 1 else if a = 0 then 0 else 1)"
| "fl_sign PInf = 1"
| "fl_sign NInf = - 1"
| "fl_sign NaN = 0"

fun fl_neg :: "pyfloat \<Rightarrow> pyfloat" where
  "fl_neg (Fin a) = Fin (- a)"
| "fl_neg PInf = NInf"
| "fl_neg NInf = PInf"
| "fl_neg NaN = NaN"

fun exact_add :: "pyfloat \<Rightarrow> pyfloat \<Rightarrow> pyfloat" where
  "exact_add (Fin a) (Fin b) = overflow (a + b)"
| "exact_add NaN y = NaN"
| "exact_add x NaN = NaN"
| "exact_add PInf NInf = NaN"
| "exact_add NInf PInf = NaN"
| "exact_add PInf y = PInf"
| "exact_add NInf y = NInf"
| "exact_add (Fin a) y = y"

definition exact_sub :: "pyfloat \<Rightarrow> pyfloat \<Rightarrow> pyfloat" where
  "exact_sub x y = exact_add x (fl_neg y)"

fun exact_mul :: "pyfloat \<Rightarrow> pyfloat \<Rightarrow> pyfloat" where
  "exact_mul (Fin a) (Fin b) = overflow (a * b)"
| "exact_mul NaN y = NaN"
| "exact_mul x NaN = NaN"
| "exact_mul x y =
     (if fl_sign x * fl_sign y = 0 then NaN else if 0 < fl_sign x * fl_sign y then PInf else NInf)"

text \<open>For a divisor that is not zero.\<close>

fun exact_div :: "pyfloat \<Rightarrow> pyfloat \<Rightarrow> pyfloat" where
  "exact_div (Fin a) (Fin b) = overflow (a / b)"
| "exact_div NaN y = NaN"
| "exact_div x NaN = NaN"
| "exact_div (Fin a) y = Fin 0"
| "exact_div x (Fin b) = (if 0 < fl_sign x * fl_sign (Fin b) then PInf else NInf)"
| "exact_div x y = NaN"

definition unrounded ::
  "((pyfloat \<times> node) list \<Rightarrow> (pyfloat \<times> node) list) \<Rightarrow> py_runtime" where
  "unrounded nan_sort =
     \<lparr>fl_add = exact_add, fl_sub = exact_sub, fl_mul = exact_mul, fl_div = exact_div,
      sort_nan_keys = nan_sort\<rparr>"

section \<open>The trustworthiness-score event handler (cleanlab\_tlm\_rag.ipynb)\<close>

text \<open>
  \<open>additional_kwargs\<close> is a \<open>Dict[str, Any]\<close>; the values the model distinguishes are
  floats, strings and \<open>None\<close>. The handler's field is annotated \<open>float\<close> but the assignment
  is not validated, so the field holds whatever value the dict has.
\<close>

datatype py_value = PyFloat rat | PyStr string | PyNone

record CompletionResponse =
  response_text :: string
  additional_kwargs :: "(string, py_value) dict"

text \<open>
  The events the dispatcher hands to a handler: a completion-end event with its prompt and
  response, or an event of any other class (named by its class name).
\<close>

datatype BaseEvent =
    LLMCompletionEndEvent string CompletionResponse
  | OtherEvent string

text \<open>
  The state \<open>handle\<close> reads and writes: the class-level list \<open>events\<close> and the instance
  field \<open>trustworthiness_score\<close> (initially \<open>0.0\<close>).
\<close>

record GetTrustworthinessScore =
  events :: "BaseEvent list"
  trustworthiness_score :: py_value

text \<open>\<open>d[k]\<close> for a string key: \<open>KeyError\<close> when the key is missing.\<close>

definition dict_item :: "(string, 'v) dict \<Rightarrow> string \<Rightarrow> py_error + 'v" where
  "dict_item d k = (case map_of d k of None \<Rightarrow> Inl (KeyError k) | Some v \<Rightarrow> Inr v)"

text \<open>
  \<open>handle\<close> returns \<open>None\<close>; the model returns the exception raised, if any, and the state
  after the call. The subscript is evaluated before the assignment, so a \<open>KeyError\<close>
  leaves the state as it was.
\<close>

definition handle :: "GetTrustworthinessScore \<Rightarrow> BaseEvent \<Rightarrow> py_error option \<times> GetTrustworthinessScore" where
  "handle self event =
     (case event of
        LLMCompletionEndEvent prompt response \<Rightarrow>
          (case dict_item (additional_kwargs response) ''trustworthiness_score'' of
             Inl e \<Rightarrow> (Some e, self)
           | Inr v \<Rightarrow>
               (let self = self\<lparr>trustworthiness_score := v\<rparr>;
                    self = self\<lparr>events := events self @ [event]\<rparr>
                in (None, self)))
      | OtherEvent name \<Rightarrow> (None, self))"

section \<open>Cells and functions that call external SDKs\<close>

text \<open>
  The SDKs are not part of the repository, so an SDK call is a parameter of the model. A
  call that only reads (loading a persisted index) is a function to \<open>py_error + 'a\<close>. An
  awaited call to a hosted service is a coroutine: it takes the state \<open>'w\<close> of the outside
  world (the hosted services) and returns what it raises or returns together with the
  state after the call. Awaiting a coroutine runs it to completion.
\<close>

type_synonym ('w, 'a) coroutine = "'w \<Rightarrow> (py_error + 'a) \<times> 'w"

subsection \<open>The index-loading cell\<close>

text \<open>
  The names the cell binds, \<open>None\<close> while a name is unbound. \<open>'sc\<close> and \<open>'ix\<close> are the SDK's
  storage contexts and indices.
\<close>

record ('sc, 'ix) notebook_globals =
  storage_context :: "'sc option"
  march_index :: "'ix option"
  june_index :: "'ix option"
  sept_index :: "'ix option"
  index_loaded :: "bool option"

text \<open>
  The body of the \<open>try\<close>: six SDK calls and a final assignment. It stops at the first call
  that raises and returns the exception with the bindings made so far.
\<close>

definition index_loading_try ::
  "(string \<Rightarrow> py_error + 'sc) \<Rightarrow> ('sc \<Rightarrow> py_error + 'ix) \<Rightarrow> ('sc, 'ix) notebook_globals
     \<Rightarrow> py_error option \<times> ('sc, 'ix) notebook_globals" where
  "index_loading_try from_defaults load_index_from_storage g =
     (case from_defaults ''./storage/march'' of
        Inl e \<Rightarrow> (Some e, g)
      | Inr sc \<Rightarrow>
     (let g = g\<lparr>storage_context := Some sc\<rparr> in
      case load_index_from_storage sc of
        Inl e \<Rightarrow> (Some e, g)
      | Inr ix \<Rightarrow>
     (let g = g\<lparr>march_index := Some ix\<rparr> in
      case from_defaults ''./storage/june'' of
        Inl e \<Rightarrow> (Some e, g)
      | Inr sc \<Rightarrow>
     (let g = g\<lparr>storage_context := Some sc\<rparr> in
      case load_index_from_storage sc of
        Inl e \<Rightarrow> (Some e, g)
      | Inr ix \<Rightarrow>
     (let g = g\<lparr>june_index := Some ix\<rparr> in
      case from_defaults ''./storage/sept'' of
        Inl e \<Rightarrow> (Some e, g)
      | Inr sc \<Rightarrow>
     (let g = g\<lparr>storage_context := Some sc\<rparr> in
      case load_index_from_storage sc of
        Inl e \<Rightarrow> (Some e, g)
      | Inr ix \<Rightarrow>
     (let g = g\<lparr>sept_index := Some ix\<rparr>
      in (None, g\<lparr>index_loaded := Some True\<rparr>))))))))"

text \<open>
  The whole cell: \<open>try: ... except: index_loaded = False\<close>. The bare \<open>except\<close> catches
  every exception. The result is \<open>Inl\<close> if an exception leaves the cell.
\<close>

definition index_loading_cell ::
  "(string \<Rightarrow> py_error + 'sc) \<Rightarrow> ('sc \<Rightarrow> py_error + 'ix) \<Rightarrow> ('sc, 'ix) notebook_globals
     \<Rightarrow> py_error + ('sc, 'ix) notebook_globals" where
  "index_loading_cell from_defaults load_index_from_storage g =
     (case index_loading_try from_defaults load_index_from_storage g of
        (None, g') \<Rightarrow> Inr g'
      | (Some e, g') \<Rightarrow> Inr (g'\<lparr>index_loaded := Some False\<rparr>))"

subsection \<open>The context-aware agent (the notebook of unknown name)\<close>

record NodeWithScore =
  node :: node
  score :: "rat option"

text \<open>
  \<open>FunctionAgent(tools=..., llm=OpenAI(model="gpt-4o"), system_prompt=...)\<close>: the agent is
  a framework object made of the three arguments; the language model is named by its
  model string. The two constructors are taken to return: they build objects and await
  nothing.
\<close>

record 'tool FunctionAgent =
  tools :: "'tool list"
  llm :: string
  system_prompt :: string

text \<open>\<open>sep.join(xs)\<close>\<close>

fun py_join :: "string \<Rightarrow> string list \<Rightarrow> string" where
  "py_join sep [] = []"
| "py_join sep [x] = x"
| "py_join sep (x # y # ys) = x @ sep @ py_join sep (y # ys)"

text \<open>
  \<open>system_prompt_template.format(context=context)\<close>: the template has the one field
  \<open>{context}\<close>, between a fixed text and a final newline.
\<close>

definition system_prompt_template :: "string \<Rightarrow> string" where
  "system_prompt_template context =
     ''You are a helpful assistant. '' @ [CHR 0x0A]
     @ ''Here is some context that you can use to answer the user'' @ [CHR 0x27]
     @ ''s question and for help with picking the right tool:'' @ [CHR 0x0A, CHR 0x0A]
     @ context @ [CHR 0x0A]"

text \<open>
  The retriever is given by its \<open>aretrieve\<close> method, a coroutine of the hosted embedding
  service.
\<close>

definition get_agent_with_context_awareness ::
  "string \<Rightarrow> (string \<Rightarrow> ('w, NodeWithScore list) coroutine) \<Rightarrow> 'tool list
     \<Rightarrow> ('w, 'tool FunctionAgent) coroutine" where
  "get_agent_with_context_awareness query aretrieve tools_arg w =
     (case aretrieve query w of
        (Inl e, w') \<Rightarrow> (Inl e, w')
      | (Inr context_nodes, w') \<Rightarrow>
          (let context_text =
                 py_join ([CHR 0x0A] @ ''----'' @ [CHR 0x0A]) (map (\<lambda>n. node_text (node n)) context_nodes)
           in (Inr \<lparr>tools = tools_arg, llm = ''gpt-4o'',
                     system_prompt = system_prompt_template context_text\<rparr>, w')))"


subsection \<open>The asynchronous embedding request (deepinfra.ipynb)\<close>

text \<open>
  \<open>main\<close> awaits \<open>model.aget_text_embedding("hello world")\<close> and prints the response. The
  model returns what \<open>main\<close> raises or returns, the state of the world after the call and
  the values printed.
\<close>

definition main :: "(string \<Rightarrow> ('w, rat list) coroutine) \<Rightarrow> 'w \<Rightarrow> ((py_error + unit) \<times> 'w) \<times> rat list list" where
  "main aget_text_embedding w =
     (case aget_text_embedding ''hello world'' w of
        (Inl e, w') \<Rightarrow> ((Inl e, w'), [])
      | (Inr async_response, w') \<Rightarrow> ((Inr (), w'), [async_response]))"

section \<open>Properties of the Python helpers\<close>

subsection \<open>Maximum, minimum and normalisation\<close>

lemma foldl_max_Max: "foldl max x xs = Max (set (x # xs))"
proof -
  have "foldl max x xs = fold max xs x"
    by (induction xs arbitrary: x) (simp_all add: max.commute)
  then show ?thesis
    by (simp only: Max.set_eq_fold)
qed

lemma foldl_min_Min: "foldl min x xs = Min (set (x # xs))"
proof -
  have "foldl min x xs = fold min xs x"
    by (induction xs arbitrary: x) (simp_all add: min.commute)
  then show ?thesis
    by (simp only: Min.set_eq_fold)
qed

lemma py_max_nonempty: "xs \<noteq> [] \<Longrightarrow> py_max xs = Inr (Max (set xs))"
  by (cases xs) (simp_all only: py_max.simps foldl_max_Max, simp)

lemma py_min_nonempty: "xs \<noteq> [] \<Longrightarrow> py_min xs = Inr (Min (set xs))"
  by (cases xs) (simp_all only: py_min.simps foldl_min_Min, simp)

lemma scale_all_zero: "xs \<noteq> [] \<Longrightarrow> mx = mn \<Longrightarrow> scale_all mn mx xs = Inl ZeroDivisionError"
  by (cases xs) (simp_all add: py_div_def)

lemma scale_all_nonzero: "mx \<noteq> mn \<Longrightarrow> scale_all mn mx xs = Inr (map (\<lambda>x. (x - mn) / (mx - mn)) xs)"
  by (induction xs) (simp_all add: py_div_def)

lemma normalize_empty: "normalize [] = Inl ValueError"
  by (simp add: normalize_def)

lemma normalize_flat:
  "xs \<noteq> [] \<Longrightarrow> Max (set xs) = Min (set xs) \<Longrightarrow> normalize xs = Inl ZeroDivisionError"
  by (simp add: normalize_def py_max_nonempty py_min_nonempty scale_all_zero)

lemma normalize_spread:
  "xs \<noteq> [] \<Longrightarrow> Max (set xs) \<noteq> Min (set xs) \<Longrightarrow>
   normalize xs = Inr (map (\<lambda>x. (x - Min (set xs)) / (Max (set xs) - Min (set xs))) xs)"
  by (simp add: normalize_def py_max_nonempty py_min_nonempty scale_all_nonzero)

lemma Max_eq_Min_iff:
  fixes xs :: "rat list"
  assumes "xs \<noteq> []"
  shows "Max (set xs) = Min (set xs) \<longleftrightarrow> (\<forall>a \<in> set xs. \<forall>b \<in> set xs. a = b)"
proof
  assume eq: "Max (set xs) = Min (set xs)"
  show "\<forall>a \<in> set xs. \<forall>b \<in> set xs. a = b"
  proof (intro ballI)
    fix a b assume "a \<in> set xs" "b \<in> set xs"
    then have "Min (set xs) \<le> a" "a \<le> Max (set xs)" "Min (set xs) \<le> b" "b \<le> Max (set xs)"
      by simp_all
    with eq show "a = b" by linarith
  qed
next
  assume all: "\<forall>a \<in> set xs. \<forall>b \<in> set xs. a = b"
  from assms have "Max (set xs) \<in> set xs" "Min (set xs) \<in> set xs"
    by simp_all
  with all show "Max (set xs) = Min (set xs)" by blast
qed

subsection \<open>Dictionaries\<close>

lemma map_of_dict_set: "map_of (dict_set k v d) = (map_of d)(k \<mapsto> v)"
  by (induction d) (auto simp: fun_eq_iff)

lemma keys_dict_set:
  "map fst (dict_set k v d) = (if k \<in> set (map fst d) then map fst d else map fst d @ [k])"
  by (induction d) auto

lemma set_dict_set: "set (dict_set k v d) \<subseteq> insert (k, v) (set d)"
  by (induction d) auto

lemma key_set_dict_set: "fst ` set (dict_set k v d) = insert k (fst ` set d)"
  by (induction d) auto

lemma distinct_dict_set: "distinct (map fst d) \<Longrightarrow> distinct (map fst (dict_set k v d))"
  by (simp add: keys_dict_set)

lemma dict_fold_keys:
  "set (map fst (foldl (\<lambda>d x. dict_set (key x) (val x) d) d0 xs)) = set (map fst d0) \<union> key ` set xs"
  by (induction xs arbitrary: d0) (auto simp: key_set_dict_set)

lemma dict_fold_distinct:
  "distinct (map fst d0) \<Longrightarrow> distinct (map fst (foldl (\<lambda>d x. dict_set (key x) (val x) d) d0 xs))"
  by (induction xs arbitrary: d0) (simp_all add: distinct_dict_set)

lemma dict_fold_entries:
  "set (foldl (\<lambda>d x. dict_set (key x) (val x) d) d0 xs) \<subseteq> set d0 \<union> (\<lambda>x. (key x, val x)) ` set xs"
proof (induction xs arbitrary: d0)
  case Nil
  show ?case by simp
next
  case (Cons x xs)
  have "set (foldl (\<lambda>d x. dict_set (key x) (val x) d) (dict_set (key x) (val x) d0) xs)
        \<subseteq> set (dict_set (key x) (val x) d0) \<union> (\<lambda>x. (key x, val x)) ` set xs"
    by (rule Cons.IH)
  with set_dict_set [of "key x" "val x" d0] show ?case by auto
qed

lemma dict_fold_map_of:
  "map_of (foldl (\<lambda>d x. dict_set (key x) (val x) d) d0 xs)
     = map_of (rev (map (\<lambda>x. (key x, val x)) xs) @ d0)"
  by (induction xs arbitrary: d0) (simp_all add: map_of_dict_set fun_eq_iff map_add_def split: option.split)

lemma dict_comprehension_keys: "set (map fst (dict_comprehension key val xs)) = key ` set xs"
  unfolding dict_comprehension_def by (simp only: dict_fold_keys) simp

lemma dict_comprehension_distinct: "distinct (map fst (dict_comprehension key val xs))"
  unfolding dict_comprehension_def by (rule dict_fold_distinct) simp

lemma dict_comprehension_entries:
  "set (dict_comprehension key val xs) \<subseteq> (\<lambda>x. (key x, val x)) ` set xs"
  unfolding dict_comprehension_def using dict_fold_entries [of key val "[]" xs] by simp

lemma dict_comprehension_map_of:
  "map_of (dict_comprehension key val xs) = map_of (rev (map (\<lambda>x. (key x, val x)) xs))"
  unfolding dict_comprehension_def by (simp add: dict_fold_map_of)

subsection \<open>The merged node dict\<close>

lemma add_missing_keys:
  "set (map fst (foldl (\<lambda>d n. if \<not> dict_contains d (node_id n) then dict_set (node_id n) n d else d) d0 ns))
     = set (map fst d0) \<union> node_id ` set ns"
  by (induction ns arbitrary: d0) (auto simp: key_set_dict_set dict_contains_def)

lemma add_missing_distinct:
  "distinct (map fst d0) \<Longrightarrow>
   distinct (map fst (foldl (\<lambda>d n. if \<not> dict_contains d (node_id n) then dict_set (node_id n) n d else d) d0 ns))"
  by (induction ns arbitrary: d0) (simp_all add: distinct_dict_set)

lemma add_missing_entries:
  "set (foldl (\<lambda>d n. if \<not> dict_contains d (node_id n) then dict_set (node_id n) n d else d) d0 ns)
     \<subseteq> set d0 \<union> (\<lambda>n. (node_id n, n)) ` set ns"
proof (induction ns arbitrary: d0)
  case Nil
  show ?case by simp
next
  case (Cons n ns)
  let ?d1 = "if \<not> dict_contains d0 (node_id n) then dict_set (node_id n) n d0 else d0"
  have "set (foldl (\<lambda>d n. if \<not> dict_contains d (node_id n) then dict_set (node_id n) n d else d) ?d1 ns)
          \<subseteq> set ?d1 \<union> (\<lambda>n. (node_id n, n)) ` set ns"
    by (rule Cons.IH)
  moreover have "set ?d1 \<subseteq> insert (node_id n, n) (set d0)"
    using set_dict_set [of "node_id n" n d0] by auto
  ultimately show ?case by auto
qed

lemma all_nodes_dict_keys:
  "set (map fst (all_nodes_dict dn sn)) = node_id ` (set dn \<union> set sn)"
  unfolding all_nodes_dict_def
  by (simp only: add_missing_keys dict_comprehension_keys image_Un)

lemma all_nodes_dict_distinct: "distinct (map fst (all_nodes_dict dn sn))"
  unfolding all_nodes_dict_def
  by (rule add_missing_distinct) (rule dict_comprehension_distinct)

lemma all_nodes_dict_entries:
  "set (all_nodes_dict dn sn) \<subseteq> (\<lambda>n. (node_id n, n)) ` (set dn \<union> set sn)"
proof -
  have "set (all_nodes_dict dn sn)
          \<subseteq> set (dict_comprehension node_id (\<lambda>x. x) dn) \<union> (\<lambda>n. (node_id n, n)) ` set sn"
    unfolding all_nodes_dict_def by (rule add_missing_entries)
  with dict_comprehension_entries [of node_id "\<lambda>x. x" dn] show ?thesis by auto
qed

lemma all_nodes_dict_ids: "map (\<lambda>p. node_id (snd p)) (all_nodes_dict dn sn) = map fst (all_nodes_dict dn sn)"
proof -
  have "\<forall>p \<in> set (all_nodes_dict dn sn). node_id (snd p) = fst p"
    using all_nodes_dict_entries [of dn sn] by fastforce
  then show ?thesis by simp
qed

subsection \<open>Sorting and the per-node dicts\<close>

lemma sort_reverse_set [simp]: "set (sort_reverse xs) = set xs"
  by (simp add: sort_reverse_def)

lemma sort_reverse_length [simp]: "length (sort_reverse xs) = length xs"
  by (simp add: sort_reverse_def)

lemma sort_reverse_mset [simp]: "mset (sort_reverse xs) = mset xs"
  by (simp add: sort_reverse_def)

lemma sort_reverse_sorted: "sorted_wrt (\<lambda>a b. fst b \<le> fst a) (sort_reverse xs)"
proof -
  have "sorted (map (\<lambda>x. - fst x) (sort_key (\<lambda>x. - fst x) xs))"
    by (rule sorted_sort_key)
  then show ?thesis
    by (simp add: sort_reverse_def sorted_map)
qed

lemma sort_reverse_Nil [simp]: "sort_reverse xs = [] \<longleftrightarrow> xs = []"
  using sort_reverse_length [of xs] by (metis length_0_conv)

lemma per_node_pairs:
  "map (\<lambda>x. (case x of (i, x) \<Rightarrow> node_id (snd (tuples ! i)), case x of (i, x) \<Rightarrow> x))
       (enumerate 0 (map h tuples))
     = map (\<lambda>t. (node_id (snd t), h t)) tuples"
  by (rule nth_equalityI) (simp_all add: nth_enumerate_eq)

lemma per_node_map_of:
  "map_of (per_node tuples (map h tuples)) = map_of (rev (map (\<lambda>t. (node_id (snd t), h t)) tuples))"
  unfolding per_node_def dict_comprehension_map_of by (simp only: per_node_pairs)

lemma last_wins:
  assumes "sorted_wrt (\<lambda>a b. fst b \<le> fst a) tuples"
  shows "map_of (rev (map (\<lambda>t. (node_id (snd t), g (fst t))) tuples)) nid =
           (if filter (\<lambda>p. node_id (snd p) = nid) tuples = [] then None
            else Some (g (Min (set (map fst (filter (\<lambda>p. node_id (snd p) = nid) tuples))))))"
  using assms
proof (induction tuples rule: rev_induct)
  case Nil
  show ?case by simp
next
  case (snoc t ts)
  from snoc.prems have sorted_ts: "sorted_wrt (\<lambda>a b. fst b \<le> fst a) ts"
    and below: "\<forall>a \<in> set ts. fst t \<le> fst a"
    by (simp_all add: sorted_wrt_append)
  show ?case
  proof (cases "node_id (snd t) = nid")
    case True
    let ?own = "fst ` {p \<in> set ts. node_id (snd p) = nid}"
    have "Min (insert (fst t) ?own) = fst t"
    proof (rule Min_eqI)
      show "finite (insert (fst t) ?own)" by simp
      show "\<And>y. y \<in> insert (fst t) ?own \<Longrightarrow> fst t \<le> y" using below by auto
      show "fst t \<in> insert (fst t) ?own" by simp
    qed
    with True show ?thesis by simp
  next
    case False
    with snoc.IH [OF sorted_ts] show ?thesis by simp
  qed
qed

subsection \<open>The outcomes of the fusion body\<close>

lemma two_values_nonempty: "two_values xs \<Longrightarrow> xs \<noteq> []"
  by (auto simp: two_values_def)

lemma normalize_two_values:
  "two_values xs \<Longrightarrow>
   normalize xs = Inr (map (\<lambda>x. (x - Min (set xs)) / (Max (set xs) - Min (set xs))) xs)"
  using normalize_spread [of xs] Max_eq_Min_iff [of xs] two_values_nonempty [of xs]
  by (auto simp: two_values_def)

lemma normalize_one_value:
  "xs \<noteq> [] \<Longrightarrow> \<not> two_values xs \<Longrightarrow> normalize xs = Inl ZeroDivisionError"
  using normalize_flat [of xs] Max_eq_Min_iff [of xs]
  by (auto simp: two_values_def)

lemma sorted_side_values: "set (map fst (sort_reverse pairs)) = set (map fst pairs)"
  by simp

lemma sorted_side_two_values: "two_values (map fst (sort_reverse pairs)) = two_values (map fst pairs)"
  unfolding two_values_def by (simp only: sorted_side_values)

lemma side_empty: "normalize (map fst (sort_reverse ([] :: (rat \<times> node) list))) = Inl ValueError"
  by (simp add: normalize_empty sort_reverse_def)

lemma side_flat:
  assumes "pairs \<noteq> []" and "\<not> two_values (map fst pairs)"
  shows "normalize (map fst (sort_reverse pairs)) = Inl ZeroDivisionError"
proof (rule normalize_one_value)
  show "map fst (sort_reverse pairs) \<noteq> []" using assms(1) by simp
  show "\<not> two_values (map fst (sort_reverse pairs))"
    using assms(2) by (simp only: sorted_side_two_values simp_thms)
qed

lemma side_spread:
  assumes "two_values (map fst pairs)"
  shows "normalize (map fst (sort_reverse pairs)) =
           Inr (map (\<lambda>t. (fst t - Min (fst ` set pairs)) / (Max (fst ` set pairs) - Min (fst ` set pairs)))
                  (sort_reverse pairs))"
proof -
  have "two_values (map fst (sort_reverse pairs))"
    using assms by (simp only: sorted_side_two_values)
  then show ?thesis
    by (simp add: normalize_two_values comp_def)
qed

lemma side_contribution:
  fixes pairs :: "(rat \<times> node) list"
  defines "g \<equiv> \<lambda>x. (x - Min (fst ` set pairs)) / (Max (fst ` set pairs) - Min (fst ` set pairs))"
  shows "dict_get (per_node (sort_reverse pairs) (map (\<lambda>t. g (fst t)) (sort_reverse pairs))) nid 0
           = contribution pairs nid"
proof -
  let ?own = "\<lambda>xs. filter (\<lambda>p. node_id (snd p) = nid) xs"
  have own_set: "set (?own (sort_reverse pairs)) = set (?own pairs)"
    by simp
  then have own_Nil: "?own (sort_reverse pairs) = [] \<longleftrightarrow> ?own pairs = []"
    by (metis set_empty)
  have "map_of (per_node (sort_reverse pairs) (map (\<lambda>t. g (fst t)) (sort_reverse pairs))) nid
          = (if ?own (sort_reverse pairs) = [] then None
             else Some (g (Min (set (map fst (?own (sort_reverse pairs)))))))"
    by (simp only: per_node_map_of last_wins [OF sort_reverse_sorted])
  also have "\<dots> = (if ?own pairs = [] then None else Some (g (Min (fst ` set (?own pairs)))))"
    using own_set own_Nil by (simp only: set_map)
  finally show ?thesis
    by (simp add: dict_get_def contribution_def g_def Let_def)
qed

lemma fused_similarities_spread:
  assumes "two_values (map fst (zip ss sn))" and "two_values (map fst (zip ds dn))"
  shows "fused_similarities dn ds sn ss alpha =
           Inr (map (\<lambda>(nid, n). (alpha * (contribution (zip ss sn) nid + contribution (zip ds dn) nid), n))
                  (all_nodes_dict dn sn))"
  by (simp only: fused_similarities_def Let_def side_spread [OF assms(1)] side_spread [OF assms(2)]
        sum.case fuse_scores_def side_contribution)

lemma fused_similarities_sparse_empty:
  assumes "zip ss sn = []"
  shows "fused_similarities dn ds sn ss alpha = Inl ValueError"
  by (simp only: fused_similarities_def Let_def assms side_empty sum.case)

lemma fused_similarities_sparse_flat:
  assumes "zip ss sn \<noteq> []" and "\<not> two_values (map fst (zip ss sn))"
  shows "fused_similarities dn ds sn ss alpha = Inl ZeroDivisionError"
  by (simp only: fused_similarities_def Let_def side_flat [OF assms] sum.case)

lemma fused_similarities_dense_empty:
  assumes "two_values (map fst (zip ss sn))" and "zip ds dn = []"
  shows "fused_similarities dn ds sn ss alpha = Inl ValueError"
  by (simp only: fused_similarities_def Let_def side_spread [OF assms(1)] assms(2) side_empty sum.case)

lemma fused_similarities_dense_flat:
  assumes "two_values (map fst (zip ss sn))" and "zip ds dn \<noteq> []"
    and "\<not> two_values (map fst (zip ds dn))"
  shows "fused_similarities dn ds sn ss alpha = Inl ZeroDivisionError"
  by (simp only: fused_similarities_def Let_def side_spread [OF assms(1)] side_flat [OF assms(2,3)] sum.case)

lemma fused_similarities_Inr:
  assumes "fused_similarities dn ds sn ss alpha = Inr fused"
  shows "two_values (map fst (zip ss sn)) \<and> two_values (map fst (zip ds dn))"
proof (rule ccontr)
  assume neg: "\<not> ?thesis"
  have "\<exists>e. fused_similarities dn ds sn ss alpha = Inl e"
  proof (cases "two_values (map fst (zip ss sn))")
    case False
    then show ?thesis
      using fused_similarities_sparse_empty [of ss sn] fused_similarities_sparse_flat [of ss sn]
      by (cases "zip ss sn = []") blast+
  next
    case True
    with neg have "\<not> two_values (map fst (zip ds dn))" by simp
    with True show ?thesis
      using fused_similarities_dense_empty [of ss sn ds dn] fused_similarities_dense_flat [of ss sn ds dn]
      by (cases "zip ds dn = []") blast+
  qed
  with assms show False by simp
qed

lemma fused_similarities_Inl:
  assumes "fused_similarities dn ds sn ss alpha = Inl e"
  shows "e = ValueError \<or> e = ZeroDivisionError"
proof (cases "two_values (map fst (zip ss sn))")
  case False
  then show ?thesis
    using assms fused_similarities_sparse_empty [of ss sn dn ds alpha]
      fused_similarities_sparse_flat [of ss sn dn ds alpha]
    by (cases "zip ss sn = []") simp_all
next
  case True
  show ?thesis
  proof (cases "two_values (map fst (zip ds dn))")
    case False
    with True show ?thesis
      using assms fused_similarities_dense_empty [of ss sn ds dn alpha]
        fused_similarities_dense_flat [of ss sn ds dn alpha]
      by (cases "zip ds dn = []") simp_all
  next
    case dense: True
    with True assms show ?thesis
      by (simp only: fused_similarities_spread) simp
  qed
qed

subsection \<open>The callback after its sanity checks\<close>

lemma two_values_take: "two_values (take n xs) \<Longrightarrow> two_values xs"
  unfolding two_values_def by (meson in_set_takeD)

lemma paired_similarities: "map fst (zip sims ns) = take (length ns) sims"
  by (simp add: map_fst_zip_take min_def)

lemma fusion_checked:
  assumes "nodes dense_result = Some dn" and "similarities dense_result = Some ds"
    and "nodes sparse_result = Some sn" and "similarities sparse_result = Some ss"
  shows "relative_score_fusion dense_result sparse_result alpha top_k =
           (case fused_similarities dn ds sn ss alpha of
              Inl e \<Rightarrow> Inl e
            | Inr fused \<Rightarrow>
                Inr \<lparr>nodes = Some (map snd (py_slice_to (sort_reverse fused) top_k)),
                     similarities = Some (map fst (py_slice_to (sort_reverse fused) top_k)),
                     ids = Some (map (\<lambda>x. node_id (snd x)) (py_slice_to (sort_reverse fused) top_k))\<rparr>)"
  by (simp add: relative_score_fusion_def assms Let_def split: sum.split)

lemma fusion_Inr_fields:
  assumes "relative_score_fusion dense_result sparse_result alpha top_k = Inr r"
  shows "\<exists>dn ds sn ss. nodes dense_result = Some dn \<and> similarities dense_result = Some ds
           \<and> nodes sparse_result = Some sn \<and> similarities sparse_result = Some ss"
  using assms by (auto simp: relative_score_fusion_def split: option.splits)

lemma fusion_Inr_fused:
  assumes "nodes dense_result = Some dn" and "similarities dense_result = Some ds"
    and "nodes sparse_result = Some sn" and "similarities sparse_result = Some ss"
    and "relative_score_fusion dense_result sparse_result alpha top_k = Inr r"
  shows "\<exists>fused. fused_similarities dn ds sn ss alpha = Inr fused \<and>
           r = \<lparr>nodes = Some (map snd (py_slice_to (sort_reverse fused) top_k)),
                similarities = Some (map fst (py_slice_to (sort_reverse fused) top_k)),
                ids = Some (map (\<lambda>x. node_id (snd x)) (py_slice_to (sort_reverse fused) top_k))\<rparr>"
  using assms(5) unfolding fusion_checked [OF assms(1-4)]
  by (cases "fused_similarities dn ds sn ss alpha") auto

lemma fused_similarities_shape:
  assumes "fused_similarities dn ds sn ss alpha = Inr fused"
  shows "fused = map (\<lambda>(nid, n). (alpha * (contribution (zip ss sn) nid + contribution (zip ds dn) nid), n))
                   (all_nodes_dict dn sn)"
proof -
  from fused_similarities_Inr [OF assms]
  have "two_values (map fst (zip ss sn))" and "two_values (map fst (zip ds dn))" by simp_all
  from fused_similarities_spread [OF this, of alpha] assms show ?thesis by simp
qed

lemma fused_nodes:
  assumes "fused_similarities dn ds sn ss alpha = Inr fused"
  shows "map snd fused = map snd (all_nodes_dict dn sn)"
  unfolding fused_similarities_shape [OF assms] by (simp add: case_prod_beta)

lemma fused_ids:
  assumes "fused_similarities dn ds sn ss alpha = Inr fused"
  shows "map (\<lambda>x. node_id (snd x)) fused = map fst (all_nodes_dict dn sn)"
proof -
  have "map (\<lambda>x. node_id (snd x)) fused = map (\<lambda>p. node_id (snd p)) (all_nodes_dict dn sn)"
    unfolding fused_similarities_shape [OF assms] by (simp add: case_prod_beta)
  then show ?thesis by (simp only: all_nodes_dict_ids)
qed


lemma slice_subset: "set (py_slice_to xs k) \<subseteq> set xs"
  by (simp add: py_slice_to_def set_take_subset)

lemma slice_length: "0 \<le> k \<Longrightarrow> length (py_slice_to xs k) = min (nat k) (length xs)"
  by (simp add: py_slice_to_def)

lemma slice_map: "map f (py_slice_to xs k) = py_slice_to (map f xs) k"
  by (simp add: py_slice_to_def take_map)

lemma slice_sorted: "sorted_wrt R xs \<Longrightarrow> sorted_wrt R (py_slice_to xs k)"
  by (simp add: py_slice_to_def)

lemma slice_distinct: "distinct xs \<Longrightarrow> distinct (py_slice_to xs k)"
  by (simp add: py_slice_to_def)

lemma sort_reverse_distinct_map: "distinct (map f (sort_reverse xs)) = distinct (map f xs)"
  by (rule mset_eq_imp_distinct_iff) simp

lemma returned_ids_distinct:
  assumes "fused_similarities dn ds sn ss alpha = Inr fused"
  shows "distinct (map (\<lambda>x. node_id (snd x)) (py_slice_to (sort_reverse fused) top_k))"
proof -
  have "distinct (map (\<lambda>x. node_id (snd x)) fused)"
    by (simp only: fused_ids [OF assms] all_nodes_dict_distinct)
  then have "distinct (map (\<lambda>x. node_id (snd x)) (sort_reverse fused))"
    by (simp only: sort_reverse_distinct_map)
  then show ?thesis
    by (simp only: slice_map slice_distinct)
qed


lemma returned_subset: "set (py_slice_to (sort_reverse fused) top_k) \<subseteq> set fused"
  using slice_subset [of "sort_reverse fused" top_k] by simp


lemma fused_length:
  assumes "fused_similarities dn ds sn ss alpha = Inr fused"
  shows "length fused = card (node_id ` (set dn \<union> set sn))"
proof -
  have "length fused = length (map fst (all_nodes_dict dn sn))"
    using arg_cong [OF fused_ids [OF assms], of length] by simp
  also have "\<dots> = card (set (map fst (all_nodes_dict dn sn)))"
    using all_nodes_dict_distinct [of dn sn] by (simp only: distinct_card)
  finally show ?thesis by (simp only: all_nodes_dict_keys)
qed

subsection \<open>The merge of the two node lists and the returned entries\<close>

lemma map_of_by_key: "map_of (map (\<lambda>x. (key x, x)) xs) k = find (\<lambda>x. key x = k) xs"
  by (induction xs) auto

lemma add_missing_map_of:
  "map_of (foldl (\<lambda>d n. if \<not> dict_contains d (node_id n) then dict_set (node_id n) n d else d) d0 ns) k
     = (case map_of d0 k of Some v \<Rightarrow> Some v | None \<Rightarrow> find (\<lambda>n. node_id n = k) ns)"
proof (induction ns arbitrary: d0)
  case Nil
  show ?case by (simp split: option.split)
next
  case (Cons n ns)
  have contains: "dict_contains d0 (node_id n) \<longleftrightarrow> map_of d0 (node_id n) \<noteq> None"
    by (simp add: dict_contains_def map_of_eq_None_iff)
  show ?case
    by (simp add: Cons.IH contains map_of_dict_set split: option.split)
qed

lemma all_nodes_dict_map_of: "map_of (all_nodes_dict dn sn) nid = merged_node dn sn nid"
proof -
  have "map_of (dict_comprehension node_id (\<lambda>x. x) dn) nid = find (\<lambda>n. node_id n = nid) (rev dn)"
    by (simp only: dict_comprehension_map_of rev_map map_of_by_key)
  then show ?thesis
    unfolding all_nodes_dict_def merged_node_def by (simp only: add_missing_map_of)
qed

lemma all_nodes_dict_merged:
  assumes "(nid, n) \<in> set (all_nodes_dict dn sn)"
  shows "merged_node dn sn (node_id n) = Some n"
proof -
  from assms all_nodes_dict_entries [of dn sn] have "nid = node_id n" by auto
  moreover from assms have "map_of (all_nodes_dict dn sn) nid = Some n"
    using all_nodes_dict_distinct [of dn sn] by simp
  ultimately show ?thesis by (simp only: all_nodes_dict_map_of)
qed


lemma slice_length_negative: "k < 0 \<Longrightarrow> length (py_slice_to xs k) = nat (int (length xs) + k)"
  by (simp add: py_slice_to_def)


lemma returned_merged:
  assumes "fused_similarities dn ds sn ss alpha = Inr fused"
    and "n \<in> set (map snd (py_slice_to (sort_reverse fused) top_k))"
  shows "merged_node dn sn (node_id n) = Some n"
proof -
  from assms(2) returned_subset [of fused top_k] have "n \<in> set (map snd fused)" by auto
  then have "n \<in> snd ` set (all_nodes_dict dn sn)"
    by (simp only: fused_nodes [OF assms(1)] set_map)
  then obtain nid where "(nid, n) \<in> set (all_nodes_dict dn sn)" by auto
  then show ?thesis by (rule all_nodes_dict_merged)
qed


section \<open>Properties of the callback on floats\<close>

subsection \<open>The order of floats\<close>

lemma fl_lt_irrefl [simp]: "\<not> fl_lt a a"
  by (cases a) simp_all

lemma fl_lt_asym: "fl_lt a b \<Longrightarrow> \<not> fl_lt b a"
  by (cases a; cases b) simp_all

lemma fl_not_lt_trans:
  "b \<noteq> NaN \<Longrightarrow> \<not> fl_lt a b \<Longrightarrow> \<not> fl_lt b c \<Longrightarrow> \<not> fl_lt a c"
  by (cases a; cases b; cases c) simp_all

lemma fl_lt_total: "a \<noteq> NaN \<Longrightarrow> b \<noteq> NaN \<Longrightarrow> \<not> fl_lt a b \<Longrightarrow> \<not> fl_lt b a \<Longrightarrow> a = b"
  by (cases a; cases b) simp_all

lemma fl_le_iff_not_lt: "a \<noteq> NaN \<Longrightarrow> b \<noteq> NaN \<Longrightarrow> fl_le b a \<longleftrightarrow> \<not> fl_lt a b"
  by (cases a; cases b) (auto simp: fl_le_def)

subsection \<open>Maximum and minimum of floats\<close>

lemma foldl_max_f:
  assumes "m \<noteq> NaN" and "NaN \<notin> set xs"
  shows "foldl (\<lambda>m y. if fl_lt m y then y else m) m xs \<in> insert m (set xs)
       \<and> (\<forall>y \<in> insert m (set xs). \<not> fl_lt (foldl (\<lambda>m y. if fl_lt m y then y else m) m xs) y)"
  using assms
proof (induction xs arbitrary: m)
  case Nil
  show ?case by simp
next
  case (Cons x xs)
  let ?m = "if fl_lt m x then x else m"
  let ?r = "foldl (\<lambda>m y. if fl_lt m y then y else m) ?m xs"
  from Cons.prems have m': "?m \<noteq> NaN" and xs: "NaN \<notin> set xs" by auto
  from Cons.IH [OF m' xs] have mem: "?r \<in> insert ?m (set xs)"
    and ub: "\<forall>y \<in> insert ?m (set xs). \<not> fl_lt ?r y"
    by simp_all
  from ub have top: "\<not> fl_lt ?r ?m" by simp
  have below: "\<not> fl_lt ?m m" "\<not> fl_lt ?m x"
    by (auto dest: fl_lt_asym)
  have "\<not> fl_lt ?r m"
    by (rule fl_not_lt_trans [OF m' top below(1)])
  moreover have "\<not> fl_lt ?r x"
    by (rule fl_not_lt_trans [OF m' top below(2)])
  ultimately have "\<not> fl_lt ?r m" and "\<not> fl_lt ?r x" by simp_all
  with mem ub show ?case by auto
qed

lemma foldl_min_f:
  assumes "m \<noteq> NaN" and "NaN \<notin> set xs"
  shows "foldl (\<lambda>m y. if fl_lt y m then y else m) m xs \<in> insert m (set xs)
       \<and> (\<forall>y \<in> insert m (set xs). \<not> fl_lt y (foldl (\<lambda>m y. if fl_lt y m then y else m) m xs))"
  using assms
proof (induction xs arbitrary: m)
  case Nil
  show ?case by simp
next
  case (Cons x xs)
  let ?m = "if fl_lt x m then x else m"
  let ?r = "foldl (\<lambda>m y. if fl_lt y m then y else m) ?m xs"
  from Cons.prems have m': "?m \<noteq> NaN" and xs: "NaN \<notin> set xs" by auto
  from Cons.IH [OF m' xs] have mem: "?r \<in> insert ?m (set xs)"
    and lb: "\<forall>y \<in> insert ?m (set xs). \<not> fl_lt y ?r"
    by simp_all
  from lb have bot: "\<not> fl_lt ?m ?r" by simp
  have above: "\<not> fl_lt m ?m" "\<not> fl_lt x ?m"
    by (auto dest: fl_lt_asym)
  have "\<not> fl_lt m ?r"
    by (rule fl_not_lt_trans [OF m' above(1) bot])
  moreover have "\<not> fl_lt x ?r"
    by (rule fl_not_lt_trans [OF m' above(2) bot])
  ultimately have "\<not> fl_lt m ?r" and "\<not> fl_lt x ?r" by simp_all
  with mem lb show ?case by auto
qed

lemma py_max_f_greatest:
  assumes "xs \<noteq> []" and "NaN \<notin> set xs"
  shows "\<exists>mx. py_max_f xs = Inr mx \<and> mx \<in> set xs \<and> (\<forall>y \<in> set xs. \<not> fl_lt mx y)"
proof -
  from assms(1) obtain x ys where xs: "xs = x # ys" by (cases xs) auto
  with assms(2) have "x \<noteq> NaN" and "NaN \<notin> set ys" by auto
  from foldl_max_f [OF this] show ?thesis by (simp add: xs)
qed

lemma py_min_f_least:
  assumes "xs \<noteq> []" and "NaN \<notin> set xs"
  shows "\<exists>mn. py_min_f xs = Inr mn \<and> mn \<in> set xs \<and> (\<forall>y \<in> set xs. \<not> fl_lt y mn)"
proof -
  from assms(1) obtain x ys where xs: "xs = x # ys" by (cases xs) auto
  with assms(2) have "x \<noteq> NaN" and "NaN \<notin> set ys" by auto
  from foldl_min_f [OF this] show ?thesis by (simp add: xs)
qed

lemma scale_all_f_nonzero:
  "fl_sub rt mx mn \<noteq> Fin 0 \<Longrightarrow>
   scale_all_f rt mn mx xs = Inr (map (\<lambda>x. fl_div rt (fl_sub rt x mn) (fl_sub rt mx mn)) xs)"
  by (induction xs) (simp_all add: py_div_f_def)

subsection \<open>The sort of floats\<close>

lemma mset_insert_reverse: "mset (insert_reverse x xs) = add_mset x (mset xs)"
  by (induction xs) simp_all

lemma mset_insertion_sort: "mset (foldr insert_reverse xs []) = mset xs"
  by (induction xs) (simp_all add: mset_insert_reverse)

lemma set_insert_reverse: "set (insert_reverse x xs) = insert x (set xs)"
  using arg_cong [OF mset_insert_reverse [of x xs], of set_mset] by simp

lemma sorted_insert_reverse:
  assumes "sorted_wrt (\<lambda>a b. \<not> fl_lt (fst a) (fst b)) xs" and "\<forall>y \<in> set xs. fst y \<noteq> NaN"
  shows "sorted_wrt (\<lambda>a b. \<not> fl_lt (fst a) (fst b)) (insert_reverse x xs)"
  using assms
proof (induction xs)
  case Nil
  show ?case by simp
next
  case (Cons y ys)
  show ?case
  proof (cases "fl_lt (fst x) (fst y)")
    case True
    then have "\<not> fl_lt (fst y) (fst x)" by (rule fl_lt_asym)
    with True Cons show ?thesis by (simp add: set_insert_reverse)
  next
    case False
    from Cons.prems(2) have y: "fst y \<noteq> NaN" by simp
    have "\<forall>z \<in> set ys. \<not> fl_lt (fst x) (fst z)"
    proof
      fix z assume "z \<in> set ys"
      with Cons.prems(1) have "\<not> fl_lt (fst y) (fst z)" by simp
      with y False show "\<not> fl_lt (fst x) (fst z)" by (rule fl_not_lt_trans)
    qed
    with False Cons.prems(1) show ?thesis by simp
  qed
qed

lemma sorted_insertion_sort:
  "\<forall>y \<in> set xs. fst y \<noteq> NaN \<Longrightarrow>
   sorted_wrt (\<lambda>a b. \<not> fl_lt (fst a) (fst b)) (foldr insert_reverse xs [])"
proof (induction xs)
  case Nil
  show ?case by simp
next
  case (Cons x xs)
  then have "sorted_wrt (\<lambda>a b. \<not> fl_lt (fst a) (fst b)) (foldr insert_reverse xs [])" by simp
  moreover have "\<forall>y \<in> set (foldr insert_reverse xs []). fst y \<noteq> NaN"
    using Cons.prems mset_eq_setD [OF mset_insertion_sort [of xs]] by simp
  ultimately show ?case by (simp add: sorted_insert_reverse)
qed

lemma mset_sort_reverse_f:
  assumes "\<forall>xs. mset (sort_nan_keys rt xs) = mset xs"
  shows "mset (sort_reverse_f rt xs) = mset xs"
  using assms by (simp add: sort_reverse_f_def mset_insertion_sort)

lemma set_sort_reverse_f:
  assumes "\<forall>xs. mset (sort_nan_keys rt xs) = mset xs"
  shows "set (sort_reverse_f rt xs) = set xs"
  by (rule mset_eq_setD [OF mset_sort_reverse_f [OF assms]])

lemma length_sort_reverse_f:
  assumes "\<forall>xs. mset (sort_nan_keys rt xs) = mset xs"
  shows "length (sort_reverse_f rt xs) = length xs"
  by (rule mset_eq_length [OF mset_sort_reverse_f [OF assms]])

lemma sorted_sort_reverse_f:
  assumes "\<forall>x \<in> set xs. fst x \<noteq> NaN"
  shows "sorted_wrt (\<lambda>a b. fl_le (fst b) (fst a)) (sort_reverse_f rt xs)"
proof -
  let ?s = "foldr insert_reverse xs []"
  have s: "sort_reverse_f rt xs = ?s" using assms by (simp add: sort_reverse_f_def)
  have keys: "\<forall>y \<in> set ?s. fst y \<noteq> NaN"
    using assms mset_eq_setD [OF mset_insertion_sort [of xs]] by simp
  have "sorted_wrt (\<lambda>a b. \<not> fl_lt (fst a) (fst b)) ?s"
    by (rule sorted_insertion_sort [OF assms])
  then have "sorted_wrt (\<lambda>a b. fl_le (fst b) (fst a)) ?s"
    by (rule sorted_wrt_mono_rel [rotated]) (simp add: keys fl_le_iff_not_lt)
  with s show ?thesis by simp
qed

subsection \<open>When the float callback returns\<close>

lemma normalize_f_returns:
  assumes "two_values_f xs"
    and "\<forall>a b. a \<noteq> NaN \<and> b \<noteq> NaN \<and> a \<noteq> b \<longrightarrow> fl_sub rt a b \<noteq> Fin 0"
  shows "\<exists>ys. normalize_f rt xs = Inr ys"
proof -
  from assms(1) have nan: "NaN \<notin> set xs" and ne: "xs \<noteq> []"
    and two: "\<exists>a \<in> set xs. \<exists>b \<in> set xs. a \<noteq> b"
    by (auto simp: two_values_f_def)
  from py_max_f_greatest [OF ne nan] obtain mx where
    mx: "py_max_f xs = Inr mx" "mx \<in> set xs" "\<forall>y \<in> set xs. \<not> fl_lt mx y" by blast
  from py_min_f_least [OF ne nan] obtain mn where
    mn: "py_min_f xs = Inr mn" "mn \<in> set xs" "\<forall>y \<in> set xs. \<not> fl_lt y mn" by blast
  have "mx \<noteq> mn"
  proof
    assume eq: "mx = mn"
    have "\<forall>y \<in> set xs. y = mx"
    proof
      fix y assume y: "y \<in> set xs"
      with nan mx(2) have "y \<noteq> NaN" "mx \<noteq> NaN" by auto
      moreover from y mx(3) have "\<not> fl_lt mx y" by simp
      moreover from y mn(3) eq have "\<not> fl_lt y mx" by simp
      ultimately show "y = mx" by (metis fl_lt_total)
    qed
    with two show False by metis
  qed
  moreover from nan mx(2) mn(2) have "mx \<noteq> NaN" "mn \<noteq> NaN" by auto
  ultimately have "fl_sub rt mx mn \<noteq> Fin 0" using assms(2) by blast
  then show ?thesis
    by (simp add: normalize_f_def mx(1) mn(1) scale_all_f_nonzero)
qed

lemma side_returns:
  assumes "two_values_f (map fst pairs)"
    and "\<forall>a b. a \<noteq> NaN \<and> b \<noteq> NaN \<and> a \<noteq> b \<longrightarrow> fl_sub rt a b \<noteq> Fin 0"
  shows "\<exists>ys. normalize_f rt (map fst (sort_reverse_f rt pairs)) = Inr ys"
proof -
  from assms(1) have "NaN \<notin> fst ` set pairs"
    by (simp add: two_values_f_def)
  then have keys: "\<forall>x \<in> set pairs. fst x \<noteq> NaN"
    by (metis imageI)
  then have s: "sort_reverse_f rt pairs = foldr insert_reverse pairs []"
    by (simp add: sort_reverse_f_def)
  have "set (map fst (foldr insert_reverse pairs [])) = set (map fst pairs)"
    using mset_eq_setD [OF mset_insertion_sort [of pairs]] by simp
  with assms(1) have "two_values_f (map fst (sort_reverse_f rt pairs))"
    unfolding two_values_f_def s by simp
  from normalize_f_returns [OF this assms(2)] show ?thesis .
qed

lemma fused_similarities_f_returns:
  assumes "two_values_f (map fst (zip ss sn))" and "two_values_f (map fst (zip ds dn))"
    and "\<forall>a b. a \<noteq> NaN \<and> b \<noteq> NaN \<and> a \<noteq> b \<longrightarrow> fl_sub rt a b \<noteq> Fin 0"
  shows "\<exists>fused. fused_similarities_f rt dn ds sn ss alpha = Inr fused"
proof -
  from side_returns [OF assms(1,3)] obtain ys where
    ys: "normalize_f rt (map fst (sort_reverse_f rt (zip ss sn))) = Inr ys" by blast
  from side_returns [OF assms(2,3)] obtain zs where
    zs: "normalize_f rt (map fst (sort_reverse_f rt (zip ds dn))) = Inr zs" by blast
  show ?thesis
    by (simp add: fused_similarities_f_def Let_def ys zs)
qed

lemma fused_similarities_f_nodes:
  assumes "fused_similarities_f rt dn ds sn ss alpha = Inr fused"
  shows "map snd fused = map snd (all_nodes_dict dn sn)"
  using assms
  by (auto simp: fused_similarities_f_def Let_def fuse_scores_f_def case_prod_beta
           split: sum.splits)

lemma fused_similarities_f_ids:
  assumes "fused_similarities_f rt dn ds sn ss alpha = Inr fused"
  shows "map (\<lambda>x. node_id (snd x)) fused = map fst (all_nodes_dict dn sn)"
proof -
  have "map (\<lambda>x. node_id (snd x)) fused = map node_id (map snd fused)" by simp
  also have "\<dots> = map (\<lambda>p. node_id (snd p)) (all_nodes_dict dn sn)"
    by (simp only: fused_similarities_f_nodes [OF assms]) simp
  finally show ?thesis by (simp only: all_nodes_dict_ids)
qed

lemma paired_similarities_f: "map fst (zip sims ns) = take (length ns) sims"
  by (simp add: map_fst_zip_take min_def)

lemma fusion_f_checked:
  assumes "nodes_f dense_result = Some dn" and "similarities_f dense_result = Some ds"
    and "nodes_f sparse_result = Some sn" and "similarities_f sparse_result = Some ss"
    and "fused_similarities_f rt dn ds sn ss alpha = Inr fused"
  shows "relative_score_fusion_f rt dense_result sparse_result alpha top_k =
           Inr \<lparr>nodes_f = Some (map snd (py_slice_to (sort_reverse_f rt fused) top_k)),
                similarities_f = Some (map fst (py_slice_to (sort_reverse_f rt fused) top_k)),
                ids_f = Some (map (\<lambda>x. node_id (snd x)) (py_slice_to (sort_reverse_f rt fused) top_k))\<rparr>"
  by (simp add: relative_score_fusion_f_def assms Let_def)

lemma unrounded_sub_nonzero:
  "\<forall>a b. a \<noteq> NaN \<and> b \<noteq> NaN \<and> a \<noteq> b \<longrightarrow> fl_sub (unrounded nan_sort) a b \<noteq> Fin 0"
proof (intro allI impI)
  fix a b :: pyfloat
  assume "a \<noteq> NaN \<and> b \<noteq> NaN \<and> a \<noteq> b"
  then show "fl_sub (unrounded nan_sort) a b \<noteq> Fin 0"
    by (cases a; cases b) (simp_all add: unrounded_def exact_sub_def overflow_def)
qed

subsection \<open>Cells and coroutines\<close>

lemma index_loading_try_success:
  assumes "from_defaults ''./storage/march'' = Inr sc1" and "load_index_from_storage sc1 = Inr ix1"
    and "from_defaults ''./storage/june'' = Inr sc2" and "load_index_from_storage sc2 = Inr ix2"
    and "from_defaults ''./storage/sept'' = Inr sc3" and "load_index_from_storage sc3 = Inr ix3"
  shows "index_loading_try from_defaults load_index_from_storage g =
           (None, g\<lparr>storage_context := Some sc3, march_index := Some ix1, june_index := Some ix2,
                     sept_index := Some ix3, index_loaded := Some True\<rparr>)"
  by (simp add: index_loading_try_def assms)

lemma index_loading_try_None:
  assumes "index_loading_try from_defaults load_index_from_storage g = (None, g')"
  shows "\<exists>sc1 ix1 sc2 ix2 sc3 ix3.
           from_defaults ''./storage/march'' = Inr sc1 \<and> load_index_from_storage sc1 = Inr ix1
         \<and> from_defaults ''./storage/june'' = Inr sc2 \<and> load_index_from_storage sc2 = Inr ix2
         \<and> from_defaults ''./storage/sept'' = Inr sc3 \<and> load_index_from_storage sc3 = Inr ix3"
  using assms unfolding index_loading_try_def Let_def
  by (simp split: sum.splits)


section \<open>The claims about the fusion callback\<close>

text \<open>
  C8. Some valid inputs make \<open>relative_score_fusion\<close> raise \<open>ZeroDivisionError\<close>: when
  all four fields are present and the sparse side is non-empty, the call raises
  \<open>ZeroDivisionError\<close> as soon as the sparse similarities are all equal (a single
  retrieved node, for instance), or the dense ones are non-empty and all equal. The
  normalisation divides by max - min without a guard.
\<close>

theorem fusion_zero_division:
  assumes "nodes dense_result = Some dn" and "similarities dense_result = Some ds"
    and "nodes sparse_result = Some sn" and "similarities sparse_result = Some ss"
    and "sn \<noteq> []" and "ss \<noteq> []"
    and "\<not> two_values ss \<or> (dn \<noteq> [] \<and> ds \<noteq> [] \<and> \<not> two_values ds)"
  shows "relative_score_fusion dense_result sparse_result alpha top_k = Inl ZeroDivisionError"
proof -
  from assms(5,6) have sparse_ne: "zip ss sn \<noteq> []" by simp
  have "fused_similarities dn ds sn ss alpha = Inl ZeroDivisionError"
  proof (cases "two_values (map fst (zip ss sn))")
    case False
    with sparse_ne show ?thesis by (rule fused_similarities_sparse_flat)
  next
    case True
    then have "two_values ss"
      by (simp only: paired_similarities two_values_take)
    with assms(7) have dense: "dn \<noteq> []" "ds \<noteq> []" "\<not> two_values ds" by simp_all
    from dense(1,2) have dense_ne: "zip ds dn \<noteq> []" by simp
    from dense(3) have "\<not> two_values (map fst (zip ds dn))"
      using two_values_take [of "length dn" ds] by (simp only: paired_similarities) blast
    with True dense_ne show ?thesis by (rule fused_similarities_dense_flat)
  qed
  then show ?thesis
    by (simp add: fusion_checked [OF assms(1-4)])
qed

theorem fusion_zero_division_witness:
  "relative_score_fusion
     \<lparr>nodes = Some [\<lparr>node_id = ''a'', node_text = ''A''\<rparr>, \<lparr>node_id = ''b'', node_text = ''B''\<rparr>],
      similarities = Some [1, 0], ids = None\<rparr>
     \<lparr>nodes = Some [\<lparr>node_id = ''c'', node_text = ''C''\<rparr>], similarities = Some [3], ids = None\<rparr>
     (1 / 2) 2 = Inl ZeroDivisionError"
  by (rule fusion_zero_division [where dn = "[\<lparr>node_id = ''a'', node_text = ''A''\<rparr>, \<lparr>node_id = ''b'', node_text = ''B''\<rparr>]"
        and ds = "[1, 0]" and sn = "[\<lparr>node_id = ''c'', node_text = ''C''\<rparr>]" and ss = "[3]"])
     (simp_all add: two_values_def)






text \<open>
  C5, as the code has it. The repository does define a data transformation of its own.
  Whenever \<open>relative_score_fusion\<close> returns, it has merged the nodes of the two results by
  node id: the returned ids are pairwise distinct and are the ids of the returned nodes,
  each returned node is the one the merge keeps for its id (\<open>merged_node\<close>), for a \<open>top_k\<close>
  that is not negative the number of returned nodes is the smaller of \<open>top_k\<close> and the
  number of distinct node ids, whatever \<open>alpha\<close> is, and one similarity is returned with
  each node.
\<close>

theorem fusion_merges_and_scores:
  assumes "relative_score_fusion dense_result sparse_result alpha top_k = Inr r"
  shows "\<exists>dn sn rn rs ri.
           nodes dense_result = Some dn \<and> nodes sparse_result = Some sn
         \<and> nodes r = Some rn \<and> similarities r = Some rs \<and> ids r = Some ri
         \<and> length rs = length rn \<and> ri = map node_id rn \<and> distinct ri
         \<and> (0 \<le> top_k \<longrightarrow> length rn = min (nat top_k) (card (node_id ` (set dn \<union> set sn))))
         \<and> (\<forall>n \<in> set rn. merged_node dn sn (node_id n) = Some n)"
proof -
  from fusion_Inr_fields [OF assms] obtain dn ds sn ss where
    fields: "nodes dense_result = Some dn" "similarities dense_result = Some ds"
      "nodes sparse_result = Some sn" "similarities sparse_result = Some ss"
    by blast
  from fusion_Inr_fused [OF fields assms] obtain fused where
    fused: "fused_similarities dn ds sn ss alpha = Inr fused"
    and rn: "nodes r = Some (map snd (py_slice_to (sort_reverse fused) top_k))"
    and rs: "similarities r = Some (map fst (py_slice_to (sort_reverse fused) top_k))"
    and ri: "ids r = Some (map (\<lambda>x. node_id (snd x)) (py_slice_to (sort_reverse fused) top_k))"
    by auto
  let ?F = "py_slice_to (sort_reverse fused) top_k"
  have len: "length (map fst ?F) = length (map snd ?F)" by simp
  have ids: "map (\<lambda>x. node_id (snd x)) ?F = map node_id (map snd ?F)" by simp
  have dist: "distinct (map (\<lambda>x. node_id (snd x)) ?F)"
    by (rule returned_ids_distinct [OF fused])
  have count: "0 \<le> top_k \<longrightarrow> length (map snd ?F) = min (nat top_k) (card (node_id ` (set dn \<union> set sn)))"
    using fused_length [OF fused] by (simp add: slice_length)
  have merged: "\<forall>n \<in> set (map snd ?F). merged_node dn sn (node_id n) = Some n"
    using returned_merged [OF fused, of _ top_k] by blast
  show ?thesis
    apply (rule exI [of _ dn], rule exI [of _ sn])
    apply (rule exI [of _ "map snd ?F"], rule exI [of _ "map fst ?F"])
    apply (rule exI [of _ "map (\<lambda>x. node_id (snd x)) ?F"])
    using fields(1,3) rn rs ri len ids dist count merged apply (intro conjI)
                apply assumption+
    done
qed

theorem fusion_merges_and_scores_witness:
  "relative_score_fusion
     \<lparr>nodes = Some [\<lparr>node_id = ''a'', node_text = ''A''\<rparr>, \<lparr>node_id = ''b'', node_text = ''B dense''\<rparr>],
      similarities = Some [2, 0], ids = None\<rparr>
     \<lparr>nodes = Some [\<lparr>node_id = ''c'', node_text = ''C''\<rparr>, \<lparr>node_id = ''b'', node_text = ''B sparse''\<rparr>,
                    \<lparr>node_id = ''d'', node_text = ''D''\<rparr>],
      similarities = Some [9, 6, 3], ids = None\<rparr>
     1 3
   = Inr \<lparr>nodes = Some [\<lparr>node_id = ''a'', node_text = ''A''\<rparr>, \<lparr>node_id = ''c'', node_text = ''C''\<rparr>,
                        \<lparr>node_id = ''b'', node_text = ''B dense''\<rparr>],
          similarities = Some [1, 1, 1 / 2], ids = Some [''a'', ''c'', ''b'']\<rparr>
   \<and> merged_node
       [\<lparr>node_id = ''a'', node_text = ''A''\<rparr>, \<lparr>node_id = ''b'', node_text = ''B dense''\<rparr>]
       [\<lparr>node_id = ''c'', node_text = ''C''\<rparr>, \<lparr>node_id = ''b'', node_text = ''B sparse''\<rparr>,
        \<lparr>node_id = ''d'', node_text = ''D''\<rparr>]
       ''b'' = Some \<lparr>node_id = ''b'', node_text = ''B dense''\<rparr>
   \<and> merged_node
       [\<lparr>node_id = ''a'', node_text = ''A''\<rparr>, \<lparr>node_id = ''b'', node_text = ''B dense''\<rparr>]
       [\<lparr>node_id = ''c'', node_text = ''C''\<rparr>, \<lparr>node_id = ''b'', node_text = ''B sparse''\<rparr>,
        \<lparr>node_id = ''d'', node_text = ''D''\<rparr>]
       ''c'' = Some \<lparr>node_id = ''c'', node_text = ''C''\<rparr>"
  (is "relative_score_fusion ?D ?S ?alpha ?k = Inr ?R \<and> ?merged_b \<and> ?merged_c")
proof -
  have run: "relative_score_fusion ?D ?S ?alpha ?k = Inr ?R"
    by code_simp
  from fusion_merges_and_scores [OF run] obtain dn sn rn where
    fields: "nodes ?D = Some dn" "nodes ?S = Some sn" "nodes ?R = Some rn"
    and merged: "\<forall>n \<in> set rn. merged_node dn sn (node_id n) = Some n"
    by (elim exE conjE) (rule that)
  from fields have "dn = [\<lparr>node_id = ''a'', node_text = ''A''\<rparr>, \<lparr>node_id = ''b'', node_text = ''B dense''\<rparr>]"
    and "sn = [\<lparr>node_id = ''c'', node_text = ''C''\<rparr>, \<lparr>node_id = ''b'', node_text = ''B sparse''\<rparr>,
               \<lparr>node_id = ''d'', node_text = ''D''\<rparr>]"
    and "rn = [\<lparr>node_id = ''a'', node_text = ''A''\<rparr>, \<lparr>node_id = ''c'', node_text = ''C''\<rparr>,
               \<lparr>node_id = ''b'', node_text = ''B dense''\<rparr>]"
    by simp_all
  with merged have "?merged_b \<and> ?merged_c" by simp
  with run show ?thesis by (rule conjI)
qed

text \<open>
  The claim C5 as written (every cell only configures pre-built components, no cell
  defines its own algorithm over data) fails: the result of \<open>relative_score_fusion\<close>
  is neither of the results it was handed. The similarities 4, 2 and 9, 3 become 1/2,
  1/2 and 0, and the two lists of two nodes are merged into one of three.
\<close>

theorem fusion_merges_and_scores_counterexample:
  "relative_score_fusion
     \<lparr>nodes = Some [\<lparr>node_id = ''a'', node_text = ''A''\<rparr>, \<lparr>node_id = ''b'', node_text = ''B''\<rparr>],
      similarities = Some [4, 2], ids = Some [''a'', ''b'']\<rparr>
     \<lparr>nodes = Some [\<lparr>node_id = ''b'', node_text = ''B''\<rparr>, \<lparr>node_id = ''c'', node_text = ''C''\<rparr>],
      similarities = Some [9, 3], ids = Some [''b'', ''c'']\<rparr>
     (1 / 2) 3
   = Inr \<lparr>nodes = Some [\<lparr>node_id = ''a'', node_text = ''A''\<rparr>, \<lparr>node_id = ''b'', node_text = ''B''\<rparr>,
                        \<lparr>node_id = ''c'', node_text = ''C''\<rparr>],
          similarities = Some [1 / 2, 1 / 2, 0], ids = Some [''a'', ''b'', ''c'']\<rparr>
   \<and> \<lparr>nodes = Some [\<lparr>node_id = ''a'', node_text = ''A''\<rparr>, \<lparr>node_id = ''b'', node_text = ''B''\<rparr>,
                      \<lparr>node_id = ''c'', node_text = ''C''\<rparr>],
        similarities = Some [1 / 2, 1 / 2, 0], ids = Some [''a'', ''b'', ''c'']\<rparr>
       \<noteq> \<lparr>nodes = Some [\<lparr>node_id = ''a'', node_text = ''A''\<rparr>, \<lparr>node_id = ''b'', node_text = ''B''\<rparr>],
            similarities = Some [4, 2], ids = Some [''a'', ''b'']\<rparr>
   \<and> \<lparr>nodes = Some [\<lparr>node_id = ''a'', node_text = ''A''\<rparr>, \<lparr>node_id = ''b'', node_text = ''B''\<rparr>,
                      \<lparr>node_id = ''c'', node_text = ''C''\<rparr>],
        similarities = Some [1 / 2, 1 / 2, 0], ids = Some [''a'', ''b'', ''c'']\<rparr>
       \<noteq> \<lparr>nodes = Some [\<lparr>node_id = ''b'', node_text = ''B''\<rparr>, \<lparr>node_id = ''c'', node_text = ''C''\<rparr>],
            similarities = Some [9, 3], ids = Some [''b'', ''c'']\<rparr>"
proof (intro conjI)
  show "relative_score_fusion
     \<lparr>nodes = Some [\<lparr>node_id = ''a'', node_text = ''A''\<rparr>, \<lparr>node_id = ''b'', node_text = ''B''\<rparr>],
      similarities = Some [4, 2], ids = Some [''a'', ''b'']\<rparr>
     \<lparr>nodes = Some [\<lparr>node_id = ''b'', node_text = ''B''\<rparr>, \<lparr>node_id = ''c'', node_text = ''C''\<rparr>],
      similarities = Some [9, 3], ids = Some [''b'', ''c'']\<rparr>
     (1 / 2) 3
   = Inr \<lparr>nodes = Some [\<lparr>node_id = ''a'', node_text = ''A''\<rparr>, \<lparr>node_id = ''b'', node_text = ''B''\<rparr>,
                        \<lparr>node_id = ''c'', node_text = ''C''\<rparr>],
          similarities = Some [1 / 2, 1 / 2, 0], ids = Some [''a'', ''b'', ''c'']\<rparr>"
    by code_simp
qed simp_all

text \<open>
  C6, as the code has it. \<open>relative_score_fusion\<close> does check a precondition on the
  framework objects it receives: it raises \<open>AssertionError\<close> exactly when \<open>nodes\<close> or
  \<open>similarities\<close> of one of the two results is \<open>None\<close>. Nothing else is checked: no
  other input makes it raise \<open>AssertionError\<close>.
\<close>

theorem fusion_assertion_iff:
  "relative_score_fusion dense_result sparse_result alpha top_k = Inl AssertionError
     \<longleftrightarrow> nodes dense_result = None \<or> similarities dense_result = None
         \<or> nodes sparse_result = None \<or> similarities sparse_result = None"
proof
  assume raised: "relative_score_fusion dense_result sparse_result alpha top_k = Inl AssertionError"
  show "nodes dense_result = None \<or> similarities dense_result = None
         \<or> nodes sparse_result = None \<or> similarities sparse_result = None"
  proof (rule ccontr)
    assume "\<not> ?thesis"
    then obtain dn ds sn ss where fields: "nodes dense_result = Some dn"
      "similarities dense_result = Some ds" "nodes sparse_result = Some sn"
      "similarities sparse_result = Some ss"
      by auto
    from raised have "fused_similarities dn ds sn ss alpha = Inl AssertionError"
      unfolding fusion_checked [OF fields] by (cases "fused_similarities dn ds sn ss alpha") auto
    from fused_similarities_Inl [OF this] show False by simp
  qed
next
  assume "nodes dense_result = None \<or> similarities dense_result = None
         \<or> nodes sparse_result = None \<or> similarities sparse_result = None"
  then show "relative_score_fusion dense_result sparse_result alpha top_k = Inl AssertionError"
    by (auto simp: relative_score_fusion_def split: option.splits)
qed

theorem fusion_assertion_iff_witness:
  "relative_score_fusion
     \<lparr>nodes = Some [\<lparr>node_id = ''a'', node_text = ''A''\<rparr>], similarities = None, ids = None\<rparr>
     \<lparr>nodes = Some [\<lparr>node_id = ''b'', node_text = ''B''\<rparr>], similarities = Some [3], ids = None\<rparr>
     (1 / 2) 2
   = Inl AssertionError"
  using fusion_assertion_iff
    [of "\<lparr>nodes = Some [\<lparr>node_id = ''a'', node_text = ''A''\<rparr>], similarities = None, ids = None\<rparr>"
        "\<lparr>nodes = Some [\<lparr>node_id = ''b'', node_text = ''B''\<rparr>], similarities = Some [3], ids = None\<rparr>"
        "1 / 2" 2]
  by simp

text \<open>
  The claim C6 as written (no function defined in the notebooks checks or asserts any
  precondition on the framework objects it receives) fails: a dense result without nodes
  is rejected by the first sanity check.
\<close>

theorem fusion_assertion_counterexample:
  "relative_score_fusion
     \<lparr>nodes = None, similarities = Some [1, 0], ids = None\<rparr>
     \<lparr>nodes = Some [\<lparr>node_id = ''b'', node_text = ''B''\<rparr>, \<lparr>node_id = ''c'', node_text = ''C''\<rparr>],
      similarities = Some [3, 1], ids = None\<rparr>
     (1 / 2) 2
   = Inl AssertionError"
  by code_simp

section \<open>The claim about the order of the result, on floats\<close>

text \<open>
  C9, as the code has it, on floats. Let the four fields be present, let the similarities
  that are paired with a node (the first \<open>len(nodes)\<close> of them, since \<open>zip\<close> stops at the
  shorter list) be numbers, not NaN, with at least two distinct values on each side, and
  let \<open>top_k\<close> not be negative. Then, in every float arithmetic in which the difference of
  two different numbers is not zero (as in IEEE 754) and with every sort that permutes
  its list, \<open>relative_score_fusion\<close> returns, and the result is well-formed: nodes,
  similarities and ids have the same length, which is at most \<open>top_k\<close> (it is the
  smaller of \<open>top_k\<close> and the number of distinct node ids); \<open>ids[i]\<close> is
  \<open>nodes[i].node_id\<close> for every index; the ids are pairwise distinct; and the
  similarities are in non-increasing order provided that none of the fused scores is NaN.
\<close>

theorem fusion_result_well_formed:
  assumes "nodes_f dense_result = Some dn" and "similarities_f dense_result = Some ds"
    and "nodes_f sparse_result = Some sn" and "similarities_f sparse_result = Some ss"
    and "two_values_f (take (length sn) ss)" and "two_values_f (take (length dn) ds)"
    and "0 \<le> top_k"
    and "\<forall>a b. a \<noteq> NaN \<and> b \<noteq> NaN \<and> a \<noteq> b \<longrightarrow> fl_sub rt a b \<noteq> Fin 0"
    and "\<forall>xs. mset (sort_nan_keys rt xs) = mset xs"
  shows "\<exists>fused rn rs ri.
           fused_similarities_f rt dn ds sn ss alpha = Inr fused
         \<and> relative_score_fusion_f rt dense_result sparse_result alpha top_k
             = Inr \<lparr>nodes_f = Some rn, similarities_f = Some rs, ids_f = Some ri\<rparr>
         \<and> length rn = length rs \<and> length ri = length rs \<and> int (length rs) \<le> top_k
         \<and> length rs = min (nat top_k) (card (node_id ` (set dn \<union> set sn)))
         \<and> (\<forall>i < length ri. ri ! i = node_id (rn ! i))
         \<and> distinct ri
         \<and> (NaN \<notin> fst ` set fused \<longrightarrow> sorted_wrt (\<lambda>a b. fl_le b a) rs)"
proof -
  from assms(5,6) have "two_values_f (map fst (zip ss sn))" and "two_values_f (map fst (zip ds dn))"
    by (simp_all only: paired_similarities_f)
  from fused_similarities_f_returns [OF this assms(8), of alpha] obtain fused where
    fused: "fused_similarities_f rt dn ds sn ss alpha = Inr fused"
    by blast
  let ?S = "sort_reverse_f rt fused"
  let ?F = "py_slice_to ?S top_k"
  note run = fusion_f_checked [OF assms(1-4) fused, of top_k]
  have len: "length ?F = min (nat top_k) (length ?S)"
    using assms(7) by (rule slice_length)
  then have bound: "int (length (map fst ?F)) \<le> top_k"
    using assms(7) by simp
  have "length fused = length (map fst (all_nodes_dict dn sn))"
    using arg_cong [OF fused_similarities_f_ids [OF fused], of length] by simp
  also have "\<dots> = card (set (map fst (all_nodes_dict dn sn)))"
    using all_nodes_dict_distinct [of dn sn] by (simp only: distinct_card)
  finally have "length fused = card (node_id ` (set dn \<union> set sn))"
    by (simp only: all_nodes_dict_keys)
  with len have count: "length (map fst ?F) = min (nat top_k) (card (node_id ` (set dn \<union> set sn)))"
    by (simp add: length_sort_reverse_f [OF assms(9)])
  have ids: "\<forall>i < length (map (\<lambda>x. node_id (snd x)) ?F).
               map (\<lambda>x. node_id (snd x)) ?F ! i = node_id (map snd ?F ! i)"
    by simp
  have "distinct (map (\<lambda>x. node_id (snd x)) fused)"
    by (simp only: fused_similarities_f_ids [OF fused] all_nodes_dict_distinct)
  moreover have "mset (map (\<lambda>x. node_id (snd x)) ?S) = mset (map (\<lambda>x. node_id (snd x)) fused)"
    using mset_sort_reverse_f [OF assms(9), of fused] by simp
  ultimately have "distinct (map (\<lambda>x. node_id (snd x)) ?S)"
    using mset_eq_imp_distinct_iff by blast
  then have dist: "distinct (map (\<lambda>x. node_id (snd x)) ?F)"
    by (simp only: slice_map slice_distinct)
  have ordered: "NaN \<notin> fst ` set fused \<longrightarrow> sorted_wrt (\<lambda>a b. fl_le b a) (map fst ?F)"
  proof
    assume "NaN \<notin> fst ` set fused"
    then have "\<forall>x \<in> set fused. fst x \<noteq> NaN" by (metis imageI)
    then have "sorted_wrt (\<lambda>a b. fl_le (fst b) (fst a)) ?S"
      by (rule sorted_sort_reverse_f)
    then have "sorted_wrt (\<lambda>a b. fl_le (fst b) (fst a)) ?F"
      by (rule slice_sorted)
    then show "sorted_wrt (\<lambda>a b. fl_le b a) (map fst ?F)"
      by (simp only: sorted_wrt_map)
  qed
  show ?thesis
    apply (rule exI [of _ fused], rule exI [of _ "map snd ?F"], rule exI [of _ "map fst ?F"])
    apply (rule exI [of _ "map (\<lambda>x. node_id (snd x)) ?F"])
    using fused run bound count ids dist ordered apply (intro conjI)
           apply simp_all
    done
qed

theorem fusion_result_well_formed_witness:
  "relative_score_fusion_f (unrounded (\<lambda>xs. xs))
     \<lparr>nodes_f = Some [\<lparr>node_id = ''a'', node_text = ''A''\<rparr>, \<lparr>node_id = ''b'', node_text = ''B''\<rparr>],
      similarities_f = Some [Fin 0, Fin 1], ids_f = None\<rparr>
     \<lparr>nodes_f = Some [\<lparr>node_id = ''b'', node_text = ''B''\<rparr>, \<lparr>node_id = ''c'', node_text = ''C''\<rparr>],
      similarities_f = Some [Fin 3, Fin 1], ids_f = None\<rparr>
     (Fin (1 / 2)) 2
   = Inr \<lparr>nodes_f = Some [\<lparr>node_id = ''b'', node_text = ''B''\<rparr>, \<lparr>node_id = ''a'', node_text = ''A''\<rparr>],
          similarities_f = Some [Fin 1, Fin 0], ids_f = Some [''b'', ''a'']\<rparr>
   \<and> fused_similarities_f (unrounded (\<lambda>xs. xs))
       [\<lparr>node_id = ''a'', node_text = ''A''\<rparr>, \<lparr>node_id = ''b'', node_text = ''B''\<rparr>] [Fin 0, Fin 1]
       [\<lparr>node_id = ''b'', node_text = ''B''\<rparr>, \<lparr>node_id = ''c'', node_text = ''C''\<rparr>] [Fin 3, Fin 1]
       (Fin (1 / 2))
     = Inr [(Fin 0, \<lparr>node_id = ''a'', node_text = ''A''\<rparr>), (Fin 1, \<lparr>node_id = ''b'', node_text = ''B''\<rparr>),
            (Fin 0, \<lparr>node_id = ''c'', node_text = ''C''\<rparr>)]
   \<and> sorted_wrt (\<lambda>a b. fl_le b a) [Fin 1, Fin 0]
   \<and> distinct [''b'', ''a'']"
  (is "relative_score_fusion_f ?rt ?D ?S ?alpha ?k = Inr ?R
       \<and> fused_similarities_f ?rt ?dn ?ds ?sn ?ss ?alpha = Inr ?fused \<and> ?sorted \<and> ?distinct")
proof -
  have run: "relative_score_fusion_f ?rt ?D ?S ?alpha ?k = Inr ?R"
    by (simp add: relative_score_fusion_f_def fused_similarities_f_def sort_reverse_f_def normalize_f_def
        py_div_f_def all_nodes_dict_def dict_comprehension_def dict_contains_def per_node_f_def
        enumerate_eq_zip fuse_scores_f_def dict_get_def py_slice_to_def unrounded_def exact_sub_def
        overflow_def upt_rec)
  have scores: "fused_similarities_f ?rt ?dn ?ds ?sn ?ss ?alpha = Inr ?fused"
    by (simp add: fused_similarities_f_def sort_reverse_f_def normalize_f_def
        py_div_f_def all_nodes_dict_def dict_comprehension_def dict_contains_def per_node_f_def
        enumerate_eq_zip fuse_scores_f_def dict_get_def unrounded_def exact_sub_def
        overflow_def upt_rec)
  have "\<exists>fused rn rs ri.
           fused_similarities_f ?rt ?dn ?ds ?sn ?ss ?alpha = Inr fused
         \<and> relative_score_fusion_f ?rt ?D ?S ?alpha ?k
             = Inr \<lparr>nodes_f = Some rn, similarities_f = Some rs, ids_f = Some ri\<rparr>
         \<and> length rn = length rs \<and> length ri = length rs \<and> int (length rs) \<le> ?k
         \<and> length rs = min (nat ?k) (card (node_id ` (set ?dn \<union> set ?sn)))
         \<and> (\<forall>i < length ri. ri ! i = node_id (rn ! i))
         \<and> distinct ri
         \<and> (NaN \<notin> fst ` set fused \<longrightarrow> sorted_wrt (\<lambda>a b. fl_le b a) rs)"
  proof (rule fusion_result_well_formed)
    show "two_values_f (take (length ?sn) ?ss)" by code_simp
    show "two_values_f (take (length ?dn) ?ds)" by code_simp
    show "\<forall>a b. a \<noteq> NaN \<and> b \<noteq> NaN \<and> a \<noteq> b \<longrightarrow> fl_sub ?rt a b \<noteq> Fin 0"
      by (rule unrounded_sub_nonzero)
    show "\<forall>xs. mset (sort_nan_keys ?rt xs) = mset xs"
      by (simp add: unrounded_def)
  qed simp_all
  then obtain fused rn rs ri where
    f: "fused_similarities_f ?rt ?dn ?ds ?sn ?ss ?alpha = Inr fused"
    and r: "relative_score_fusion_f ?rt ?D ?S ?alpha ?k
             = Inr \<lparr>nodes_f = Some rn, similarities_f = Some rs, ids_f = Some ri\<rparr>"
    and d: "distinct ri"
    and s: "NaN \<notin> fst ` set fused \<longrightarrow> sorted_wrt (\<lambda>a b. fl_le b a) rs"
    by (elim exE conjE) (rule that)
  from f scores have "fused = ?fused" by simp
  then have "NaN \<notin> fst ` set fused" by simp
  with s have "sorted_wrt (\<lambda>a b. fl_le b a) rs" by simp
  moreover from r run have "rs = [Fin 1, Fin 0]" and "ri = [''b'', ''a'']" by simp_all
  ultimately have "?sorted" and "?distinct" using d by simp_all
  with run scores show ?thesis by (intro conjI)
qed

text \<open>
  The claim C9 as written fails in four ways. With \<open>top_k = -1\<close> the slice
  \<open>fused_similarities[:top_k]\<close> drops the last element only, so two nodes are returned
  and the length is not at most \<open>top_k\<close>. With two distinct sparse similarities but a
  single sparse node, \<open>zip\<close> keeps one pair and the normalisation raises
  \<open>ZeroDivisionError\<close>, so nothing is returned. With the finite dense similarities
  \<open>-2^1023\<close>, \<open>2^1023\<close> and 0, the spread \<open>max - min\<close> overflows to infinity, the
  normalised similarity of the best dense node is infinity divided by infinity, NaN, and
  the fused scores are 0, NaN and 1/2 in the order of the nodes; \<open>list.sort\<close> finds no
  pair out of order (every comparison with NaN is false) and leaves the list as it is, so
  the similarities 0 and NaN are returned: they are not in non-increasing order. With the
  dense similarities 1 and NaN, two distinct values, \<open>max\<close> and \<open>min\<close> are both 1, since no
  comparison with NaN is true, and the normalisation raises \<open>ZeroDivisionError\<close>. In the
  last two cases the sort meets NaN keys; it is the identity there, which is what
  \<open>list.sort\<close> does to these two lists.
\<close>

theorem fusion_result_well_formed_counterexample:
  "relative_score_fusion_f (unrounded (\<lambda>xs. xs))
     \<lparr>nodes_f = Some [\<lparr>node_id = ''a'', node_text = ''A''\<rparr>, \<lparr>node_id = ''b'', node_text = ''B''\<rparr>],
      similarities_f = Some [Fin 1, Fin 0], ids_f = None\<rparr>
     \<lparr>nodes_f = Some [\<lparr>node_id = ''b'', node_text = ''B''\<rparr>, \<lparr>node_id = ''c'', node_text = ''C''\<rparr>],
      similarities_f = Some [Fin 3, Fin 1], ids_f = None\<rparr>
     (Fin (1 / 2)) (- 1)
   = Inr \<lparr>nodes_f = Some [\<lparr>node_id = ''a'', node_text = ''A''\<rparr>, \<lparr>node_id = ''b'', node_text = ''B''\<rparr>],
          similarities_f = Some [Fin (1 / 2), Fin (1 / 2)], ids_f = Some [''a'', ''b'']\<rparr>
   \<and> \<not> int (length [Fin (1 / 2), Fin (1 / 2)]) \<le> - 1
   \<and> relative_score_fusion_f (unrounded (\<lambda>xs. xs))
     \<lparr>nodes_f = Some [\<lparr>node_id = ''a'', node_text = ''A''\<rparr>, \<lparr>node_id = ''b'', node_text = ''B''\<rparr>],
      similarities_f = Some [Fin 1, Fin 0], ids_f = None\<rparr>
     \<lparr>nodes_f = Some [\<lparr>node_id = ''c'', node_text = ''C''\<rparr>],
      similarities_f = Some [Fin 3, Fin 1], ids_f = None\<rparr>
     (Fin (1 / 2)) 2
   = Inl ZeroDivisionError
   \<and> relative_score_fusion_f (unrounded (\<lambda>xs. xs))
     \<lparr>nodes_f = Some [\<lparr>node_id = ''a'', node_text = ''A''\<rparr>, \<lparr>node_id = ''b'', node_text = ''B''\<rparr>,
                      \<lparr>node_id = ''c'', node_text = ''C''\<rparr>],
      similarities_f = Some [Fin (- (2 ^ 1023)), Fin (2 ^ 1023), Fin 0], ids_f = None\<rparr>
     \<lparr>nodes_f = Some [\<lparr>node_id = ''a'', node_text = ''A''\<rparr>, \<lparr>node_id = ''c'', node_text = ''C''\<rparr>],
      similarities_f = Some [Fin 0, Fin 1], ids_f = None\<rparr>
     (Fin (1 / 2)) 2
   = Inr \<lparr>nodes_f = Some [\<lparr>node_id = ''a'', node_text = ''A''\<rparr>, \<lparr>node_id = ''b'', node_text = ''B''\<rparr>],
          similarities_f = Some [Fin 0, NaN], ids_f = Some [''a'', ''b'']\<rparr>
   \<and> \<not> sorted_wrt (\<lambda>a b. fl_le b a) [Fin 0, NaN]
   \<and> relative_score_fusion_f (unrounded (\<lambda>xs. xs))
     \<lparr>nodes_f = Some [\<lparr>node_id = ''a'', node_text = ''A''\<rparr>, \<lparr>node_id = ''b'', node_text = ''B''\<rparr>],
      similarities_f = Some [Fin 1, NaN], ids_f = None\<rparr>
     \<lparr>nodes_f = Some [\<lparr>node_id = ''b'', node_text = ''B''\<rparr>, \<lparr>node_id = ''c'', node_text = ''C''\<rparr>],
      similarities_f = Some [Fin 3, Fin 1], ids_f = None\<rparr>
     (Fin (1 / 2)) 2
   = Inl ZeroDivisionError"
  by (simp add: relative_score_fusion_f_def fused_similarities_f_def sort_reverse_f_def normalize_f_def
        py_div_f_def all_nodes_dict_def dict_comprehension_def dict_contains_def per_node_f_def
        enumerate_eq_zip fuse_scores_f_def dict_get_def py_slice_to_def unrounded_def exact_sub_def
        overflow_def fl_le_def upt_rec)

section \<open>The claim about the event handler\<close>

text \<open>
  C10, as the code has it. \<open>GetTrustworthinessScore.handle\<close> changes the handler's state
  only on completion events: an event that is not an \<open>LLMCompletionEndEvent\<close> leaves
  \<open>trustworthiness_score\<close> and \<open>events\<close> unchanged; an \<open>LLMCompletionEndEvent\<close> whose
  \<open>response.additional_kwargs\<close> has the key \<open>"trustworthiness_score"\<close> sets
  \<open>trustworthiness_score\<close> to that value and appends the event to \<open>events\<close>; one
  without the key raises \<open>KeyError\<close> and leaves both unchanged.
\<close>

theorem handle_frame:
  "(\<forall>name. handle self (OtherEvent name) = (None, self))
   \<and> (\<forall>prompt response v.
        map_of (additional_kwargs response) ''trustworthiness_score'' = Some v \<longrightarrow>
        handle self (LLMCompletionEndEvent prompt response)
          = (None, \<lparr>events = events self @ [LLMCompletionEndEvent prompt response],
                    trustworthiness_score = v\<rparr>))
   \<and> (\<forall>prompt response.
        map_of (additional_kwargs response) ''trustworthiness_score'' = None \<longrightarrow>
        handle self (LLMCompletionEndEvent prompt response)
          = (Some (KeyError ''trustworthiness_score''), self))"
  by (simp add: handle_def dict_item_def)

theorem handle_frame_witness:
  "handle \<lparr>events = [], trustworthiness_score = PyFloat 0\<rparr> (OtherEvent ''LLMChatEndEvent'')
     = (None, \<lparr>events = [], trustworthiness_score = PyFloat 0\<rparr>)
   \<and> handle \<lparr>events = [], trustworthiness_score = PyFloat 0\<rparr>
        (LLMCompletionEndEvent ''q''
           \<lparr>response_text = ''r'', additional_kwargs = [(''trustworthiness_score'', PyFloat (9 / 10))]\<rparr>)
     = (None, \<lparr>events = [LLMCompletionEndEvent ''q''
           \<lparr>response_text = ''r'', additional_kwargs = [(''trustworthiness_score'', PyFloat (9 / 10))]\<rparr>],
         trustworthiness_score = PyFloat (9 / 10)\<rparr>)"
  using handle_frame [of "\<lparr>events = [], trustworthiness_score = PyFloat 0\<rparr>"]
  by simp

text \<open>
  The claim C10 as written (every \<open>LLMCompletionEndEvent\<close> sets the score and is
  appended) fails for a completion event whose \<open>additional_kwargs\<close> lacks the key: the
  subscript raises \<open>KeyError\<close> and the event is not appended.
\<close>

theorem handle_frame_counterexample:
  "handle \<lparr>events = [], trustworthiness_score = PyFloat 0\<rparr>
     (LLMCompletionEndEvent ''q'' \<lparr>response_text = ''r'', additional_kwargs = []\<rparr>)
   = (Some (KeyError ''trustworthiness_score''), \<lparr>events = [], trustworthiness_score = PyFloat 0\<rparr>)"
  by (simp add: handle_def dict_item_def)

section \<open>The claims about cells and functions that call external SDKs\<close>

text \<open>
  C1, as the code has it. Exceptions raised by SDK calls are not caught by the functions
  the notebooks define: \<open>get_agent_with_context_awareness\<close> and \<open>main\<close> raise what the
  call they await raises. The index-loading cell, however, catches: whatever its six SDK
  calls do, the cell completes without raising and binds \<open>index_loaded\<close>, to \<open>True\<close>
  exactly when all six calls returned and to \<open>False\<close> when one of them raised.
\<close>

theorem index_loading_cell_catches:
  "(\<exists>g'. index_loading_cell from_defaults load_index_from_storage g = Inr g'
         \<and> (index_loaded g' = Some True \<or> index_loaded g' = Some False)
         \<and> (index_loaded g' = Some True \<longleftrightarrow>
              (\<exists>sc1 ix1 sc2 ix2 sc3 ix3.
                 from_defaults ''./storage/march'' = Inr sc1 \<and> load_index_from_storage sc1 = Inr ix1
               \<and> from_defaults ''./storage/june'' = Inr sc2 \<and> load_index_from_storage sc2 = Inr ix2
               \<and> from_defaults ''./storage/sept'' = Inr sc3 \<and> load_index_from_storage sc3 = Inr ix3)))
   \<and> (\<forall>e w'. aretrieve query w = (Inl e, w') \<longrightarrow>
          get_agent_with_context_awareness query aretrieve tools_arg w = (Inl e, w'))
   \<and> (\<forall>e w'. aget_text_embedding ''hello world'' w = (Inl e, w') \<longrightarrow>
          main aget_text_embedding w = ((Inl e, w'), []))"
proof (intro conjI)
  show "\<exists>g'. index_loading_cell from_defaults load_index_from_storage g = Inr g'
         \<and> (index_loaded g' = Some True \<or> index_loaded g' = Some False)
         \<and> (index_loaded g' = Some True \<longleftrightarrow>
              (\<exists>sc1 ix1 sc2 ix2 sc3 ix3.
                 from_defaults ''./storage/march'' = Inr sc1 \<and> load_index_from_storage sc1 = Inr ix1
               \<and> from_defaults ''./storage/june'' = Inr sc2 \<and> load_index_from_storage sc2 = Inr ix2
               \<and> from_defaults ''./storage/sept'' = Inr sc3 \<and> load_index_from_storage sc3 = Inr ix3))"
    (is "\<exists>g'. _ \<and> _ \<and> (_ \<longleftrightarrow> ?loaded)")
  proof (cases "index_loading_try from_defaults load_index_from_storage g")
    case (Pair raised g1)
    show ?thesis
    proof (cases raised)
      case None
      from index_loading_try_None [OF Pair [unfolded None]] have loaded: ?loaded .
      then obtain sc1 ix1 sc2 ix2 sc3 ix3 where
        calls: "from_defaults ''./storage/march'' = Inr sc1" "load_index_from_storage sc1 = Inr ix1"
          "from_defaults ''./storage/june'' = Inr sc2" "load_index_from_storage sc2 = Inr ix2"
          "from_defaults ''./storage/sept'' = Inr sc3" "load_index_from_storage sc3 = Inr ix3"
        by blast
      from index_loading_try_success [OF calls, of g] Pair None
      have "index_loaded g1 = Some True" by simp
      with Pair None loaded show ?thesis
        by (simp add: index_loading_cell_def)
    next
      case (Some e)
      have "\<not> ?loaded"
      proof
        assume ?loaded
        then obtain sc1 ix1 sc2 ix2 sc3 ix3 where
          calls: "from_defaults ''./storage/march'' = Inr sc1" "load_index_from_storage sc1 = Inr ix1"
            "from_defaults ''./storage/june'' = Inr sc2" "load_index_from_storage sc2 = Inr ix2"
            "from_defaults ''./storage/sept'' = Inr sc3" "load_index_from_storage sc3 = Inr ix3"
          by blast
        from index_loading_try_success [OF calls, of g] Pair Some show False by simp
      qed
      with Pair Some show ?thesis
        by (simp add: index_loading_cell_def)
    qed
  qed
next
  show "\<forall>e w'. aretrieve query w = (Inl e, w') \<longrightarrow>
          get_agent_with_context_awareness query aretrieve tools_arg w = (Inl e, w')"
    by (simp add: get_agent_with_context_awareness_def)
next
  show "\<forall>e w'. aget_text_embedding ''hello world'' w = (Inl e, w') \<longrightarrow>
          main aget_text_embedding w = ((Inl e, w'), [])"
    by (simp add: main_def)
qed

theorem index_loading_cell_catches_witness:
  "index_loading_cell (\<lambda>persist_dir. Inr persist_dir) (\<lambda>sc. Inr (''index of '' @ sc))
     \<lparr>storage_context = None, march_index = None, june_index = None, sept_index = None,
      index_loaded = None\<rparr>
   = Inr \<lparr>storage_context = Some ''./storage/sept'', march_index = Some ''index of ./storage/march'',
          june_index = Some ''index of ./storage/june'', sept_index = Some ''index of ./storage/sept'',
          index_loaded = Some True\<rparr>
   \<and> get_agent_with_context_awareness ''q'' (\<lambda>q w. (Inl (SDKError ''RateLimitError''), Suc w)) [()] (0 :: nat)
       = (Inl (SDKError ''RateLimitError''), 1)
   \<and> main (\<lambda>t w. (Inl (SDKError ''APIConnectionError''), Suc w)) (0 :: nat)
       = ((Inl (SDKError ''APIConnectionError''), 1), [])"
  using index_loading_cell_catches
    [of "\<lambda>persist_dir. Inr persist_dir" "\<lambda>sc. Inr (''index of '' @ sc)"
        "\<lparr>storage_context = None, march_index = None, june_index = None, sept_index = None,
          index_loaded = None\<rparr>"
        "\<lambda>q w. (Inl (SDKError ''RateLimitError''), Suc w)" "''q''" "0 :: nat"
        "[()]" "\<lambda>t w. (Inl (SDKError ''APIConnectionError''), Suc w)"]
  by (simp add: index_loading_cell_def index_loading_try_def)

text \<open>
  The claim C1 as written (no repository code catches an exception raised by an SDK call
  or alters control flow on error) fails: when the second \<open>StorageContext.from_defaults\<close>
  raises, the cell swallows the exception, keeps the bindings made so far and sets
  \<open>index_loaded = False\<close>.
\<close>

theorem index_loading_cell_catches_counterexample:
  "index_loading_cell
     (\<lambda>persist_dir. if persist_dir = ''./storage/march'' then Inr persist_dir
                      else Inl (SDKError ''FileNotFoundError''))
     (\<lambda>sc. Inr (''index of '' @ sc))
     \<lparr>storage_context = None, march_index = None, june_index = None, sept_index = None,
      index_loaded = None\<rparr>
   = Inr \<lparr>storage_context = Some ''./storage/march'', march_index = Some ''index of ./storage/march'',
          june_index = None, sept_index = None, index_loaded = Some False\<rparr>"
  by (simp add: index_loading_cell_def index_loading_try_def)




text \<open>
  C7, as the code has it. Each of the two coroutines defined in the notebooks invokes its
  SDK call once, with nothing around it: the state of the outside world after the
  coroutine is the state after that one call, and an exception of the call is raised
  unchanged. \<open>main\<close> prints the response as it is. \<open>get_agent_with_context_awareness\<close>
  transforms the response locally: it returns an agent whose system prompt is the
  template filled with the texts of the retrieved nodes joined by a separator line.
\<close>

theorem awaited_calls:
  "snd (get_agent_with_context_awareness query aretrieve tools_arg w) = snd (aretrieve query w)
   \<and> (\<forall>e. fst (aretrieve query w) = Inl e \<longrightarrow>
          fst (get_agent_with_context_awareness query aretrieve tools_arg w) = Inl e)
   \<and> (\<forall>context_nodes. fst (aretrieve query w) = Inr context_nodes \<longrightarrow>
          fst (get_agent_with_context_awareness query aretrieve tools_arg w)
            = Inr \<lparr>tools = tools_arg, llm = ''gpt-4o'',
                   system_prompt = system_prompt_template
                     (py_join ([CHR 0x0A] @ ''----'' @ [CHR 0x0A])
                        (map (\<lambda>n. node_text (node n)) context_nodes))\<rparr>)
   \<and> snd (fst (main aget_text_embedding w')) = snd (aget_text_embedding ''hello world'' w')
   \<and> (\<forall>e. fst (aget_text_embedding ''hello world'' w') = Inl e \<longrightarrow>
          fst (fst (main aget_text_embedding w')) = Inl e \<and> snd (main aget_text_embedding w') = [])
   \<and> (\<forall>async_response. fst (aget_text_embedding ''hello world'' w') = Inr async_response \<longrightarrow>
          fst (fst (main aget_text_embedding w')) = Inr ()
          \<and> snd (main aget_text_embedding w') = [async_response])"
proof -
  obtain r1 v1 where a: "aretrieve query w = (r1, v1)" by (cases "aretrieve query w")
  obtain r2 v2 where b: "aget_text_embedding ''hello world'' w' = (r2, v2)"
    by (cases "aget_text_embedding ''hello world'' w'")
  show ?thesis
    unfolding get_agent_with_context_awareness_def main_def a b
    by (cases r1; cases r2) simp_all
qed

theorem awaited_calls_witness:
  "get_agent_with_context_awareness ''q''
     (\<lambda>q w. (Inr [\<lparr>node = \<lparr>node_id = ''1'', node_text = ''x''\<rparr>, score = Some (9 / 10)\<rparr>,
                  \<lparr>node = \<lparr>node_id = ''2'', node_text = ''y''\<rparr>, score = None\<rparr>], Suc w))
     [()] (0 :: nat)
   = (Inr \<lparr>tools = [()], llm = ''gpt-4o'',
           system_prompt = system_prompt_template (''x'' @ [CHR 0x0A] @ ''----'' @ [CHR 0x0A] @ ''y'')\<rparr>, 1)
   \<and> main (\<lambda>t w. (Inr [1 / 2, 1 / 4], Suc w)) (0 :: nat) = ((Inr (), 1), [[1 / 2, 1 / 4]])"
  using awaited_calls
    [of "''q''"
        "\<lambda>q w. (Inr [\<lparr>node = \<lparr>node_id = ''1'', node_text = ''x''\<rparr>, score = Some (9 / 10)\<rparr>,
                     \<lparr>node = \<lparr>node_id = ''2'', node_text = ''y''\<rparr>, score = None\<rparr>], Suc w)"
        "[()]" "0 :: nat" "\<lambda>t w. (Inr [1 / 2, 1 / 4], Suc w)" "0 :: nat"]
  by (simp add: prod_eq_iff)

text \<open>
  The claim C7 as written (awaiting an asynchronous call is equivalent to invoking the
  SDK call directly, with no local transformation) fails for
  \<open>await get_agent_with_context_awareness(...)\<close>: the awaited value is an agent built
  locally, and two different responses of the retriever (other node ids and scores, the
  same text) give the same agent.
\<close>

theorem awaited_calls_counterexample:
  "fst (get_agent_with_context_awareness ''q''
          (\<lambda>q w. (Inr [\<lparr>node = \<lparr>node_id = ''1'', node_text = ''x''\<rparr>, score = Some (9 / 10)\<rparr>], Suc w))
          [()] (0 :: nat))
   = Inr \<lparr>tools = [()], llm = ''gpt-4o'', system_prompt = system_prompt_template ''x''\<rparr>
   \<and> fst (get_agent_with_context_awareness ''q''
          (\<lambda>q w. (Inr [\<lparr>node = \<lparr>node_id = ''2'', node_text = ''x''\<rparr>, score = Some (1 / 10)\<rparr>], Suc w))
          [()] (0 :: nat))
   = Inr \<lparr>tools = [()], llm = ''gpt-4o'', system_prompt = system_prompt_template ''x''\<rparr>
   \<and> [\<lparr>node = \<lparr>node_id = ''1'', node_text = ''x''\<rparr>, score = Some (9 / 10)\<rparr>]
       \<noteq> [\<lparr>node = \<lparr>node_id = ''2'', node_text = ''x''\<rparr>, score = Some (1 / 10)\<rparr>]"
  by (simp add: get_agent_with_context_awareness_def)

end
